theory Spec2Isabelle
  imports Main "HOL-Library.Multiset"
begin

section \<open>Go time values\<close>

text \<open>
  A \<^verbatim>\<open>time.Duration\<close> is a signed 64-bit count of nanoseconds; arithmetic on it wraps.
  A \<^verbatim>\<open>time.Time\<close> is an instant together with a location. The instant is kept as
  nanoseconds since the Unix epoch (unbounded: the range of Go's \<^verbatim>\<open>Time\<close> is far larger
  than anything a duration can move it by); the location is a fixed offset in seconds east
  of UTC (a zone with daylight-saving transitions is outside this model). The monotonic
  clock reading of \<^verbatim>\<open>time.Now()\<close> is left out: every comparison in the program has an
  operand built by \<^verbatim>\<open>time.Date\<close> or \<^verbatim>\<open>Truncate\<close>, which carry none.
\<close>

type_synonym Duration = int

definition wrap64 :: "int \<Rightarrow> int" where
  "wrap64 x = (x + 2 ^ 63) mod 2 ^ 64 - 2 ^ 63"

definition Second :: Duration where
  "Second = 1000000000"

definition Hour :: Duration where
  "Hour = 3600000000000"

text \<open>\<^verbatim>\<open>time.Duration(n) * unit\<close> and unary minus on a duration, in int64.\<close>

definition mulDuration :: "int \<Rightarrow> Duration \<Rightarrow> Duration" where
  "mulDuration n unit = wrap64 (n * unit)"

definition negDuration :: "Duration \<Rightarrow> Duration" where
  "negDuration d = wrap64 (- d)"

record Time =
  unixNano :: int
  zoneOffset :: int

text \<open>Seconds since the Unix epoch shifted into the location: what the clock face shows.\<close>

definition localSec :: "Time \<Rightarrow> int" where
  "localSec t = unixNano t div 1000000000 + zoneOffset t"

text \<open>\<^verbatim>\<open>t.Hour()\<close>, \<^verbatim>\<open>t.Minute()\<close>, \<^verbatim>\<open>t.Second()\<close>.\<close>

definition hourOf :: "Time \<Rightarrow> int" where
  "hourOf t = (localSec t mod 86400) div 3600"

definition minuteOf :: "Time \<Rightarrow> int" where
  "minuteOf t = (localSec t mod 3600) div 60"

definition secondOf :: "Time \<Rightarrow> int" where
  "secondOf t = localSec t mod 60"

text \<open>
  \<^verbatim>\<open>t.Year(), t.Month(), t.Day()\<close> name one civil day in the location of \<open>t\<close>. The calendar
  triple is represented by the number of that day (days since 1970-01-01).
\<close>

definition civilDay :: "Time \<Rightarrow> int" where
  "civilDay t = localSec t div 86400"

text \<open>
  \<^verbatim>\<open>time.Date(y, m, d, hour, min, 0, 0, loc)\<close> with the day given by its number. Go
  normalises out-of-range hours and minutes by carrying, which is what the sum does.
\<close>

definition Date :: "int \<Rightarrow> int \<Rightarrow> int \<Rightarrow> int \<Rightarrow> Time" where
  "Date day h m loc =
     \<lparr>unixNano = (day * 86400 + h * 3600 + m * 60 - loc) * 1000000000, zoneOffset = loc\<rparr>"

definition Add :: "Time \<Rightarrow> Duration \<Rightarrow> Time" where
  "Add t d = t\<lparr>unixNano := unixNano t + d\<rparr>"

definition After :: "Time \<Rightarrow> Time \<Rightarrow> bool" where
  "After t u = (unixNano t > unixNano u)"

definition Before :: "Time \<Rightarrow> Time \<Rightarrow> bool" where
  "Before t u = (unixNano t < unixNano u)"

text \<open>
  \<^verbatim>\<open>t.Truncate(d)\<close> rounds the instant down to a multiple of \<open>d\<close> counted from Go's zero
  time, 0001-01-01 00:00:00 UTC, which lies 62135596800 seconds before the Unix epoch.
  It works on the absolute instant, not on the clock face of the location.
\<close>

definition unixToInternal :: int where
  "unixToInternal = 62135596800"

definition Truncate :: "Time \<Rightarrow> Duration \<Rightarrow> Time" where
  "Truncate t d =
     (if d \<le> 0 then t
      else Add t (- ((unixNano t + unixToInternal * 1000000000) mod d)))"

text \<open>
  Day number of a date of the proleptic Gregorian calendar, used only to write the
  calendar dates of examples.
\<close>

definition daysFromCivil :: "int \<Rightarrow> int \<Rightarrow> int \<Rightarrow> int" where
  "daysFromCivil y m d =
     (let y' = (if m \<le> 2 then y - 1 else y);
          era = y' div 400;
          yoe = y' - era * 400;
          mp = (if m > 2 then m - 3 else m + 9);
          doy = (153 * mp + 2) div 5 + d - 1;
          doe = yoe * 365 + yoe div 4 - yoe div 100 + doy
      in era * 146097 + doe - 719468)"

section \<open>Scanning a target time\<close>

text \<open>
  \<^verbatim>\<open>fmt.Sscanf(t, "%d:%d", &hour, &min)\<close>. Each \<^verbatim>\<open>%d\<close> skips blanks (a newline is an
  error), takes an optional sign and at least one decimal digit, and fails when the
  number does not fit int64; the colon must follow the first number at once; input left
  over after the second number is ignored. Only the ASCII blanks are modelled.
\<close>

definition isSpace :: "char \<Rightarrow> bool" where
  "isSpace c = (let n = (of_char c :: nat) in (9 \<le> n \<and> n \<le> 13) \<or> n = 32)"

definition isDigit :: "char \<Rightarrow> bool" where
  "isDigit c = (let n = (of_char c :: nat) in 48 \<le> n \<and> n \<le> 57)"

definition digitVal :: "char \<Rightarrow> int" where
  "digitVal c = int (of_char c) - 48"

fun SkipSpace :: "string \<Rightarrow> string option" where
  "SkipSpace [] = Some []"
| "SkipSpace (c # cs) =
     (if (of_char c :: nat) = 10 then None
      else if isSpace c then SkipSpace cs
      else Some (c # cs))"

fun scanNumber :: "int \<Rightarrow> string \<Rightarrow> int \<times> string" where
  "scanNumber acc [] = (acc, [])"
| "scanNumber acc (c # cs) =
     (if isDigit c then scanNumber (acc * 10 + digitVal c) cs else (acc, c # cs))"

definition acceptSign :: "string \<Rightarrow> bool \<times> string" where
  "acceptSign cs =
     (case cs of
        [] \<Rightarrow> (False, [])
      | c # r \<Rightarrow> if c = CHR ''-'' then (True, r)
                 else if c = CHR ''+'' then (False, r)
                 else (False, cs))"

definition scanInt :: "string \<Rightarrow> (int \<times> string) option" where
  "scanInt s =
     (case SkipSpace s of
        None \<Rightarrow> None
      | Some s1 \<Rightarrow>
          (case acceptSign s1 of (neg, s2) \<Rightarrow>
             (case s2 of
                [] \<Rightarrow> None
              | c # _ \<Rightarrow>
                  if \<not> isDigit c then None
                  else (case scanNumber 0 s2 of (n, rest) \<Rightarrow>
                          let v = (if neg then - n else n)
                          in if v < - (2 ^ 63) \<or> 2 ^ 63 \<le> v then None
                             else Some (v, rest)))))"

text \<open>
  The result is the final value of the two variables, which start at zero and are stored
  one at a time, and whether an error was returned.
\<close>

definition Sscanf :: "string \<Rightarrow> int \<times> int \<times> bool" where
  "Sscanf t =
     (case scanInt t of
        None \<Rightarrow> (0, 0, True)
      | Some (h, r) \<Rightarrow>
          (case r of
             [] \<Rightarrow> (h, 0, True)
           | c # r' \<Rightarrow>
               if c \<noteq> CHR '':'' then (h, 0, True)
               else (case scanInt r' of
                       None \<Rightarrow> (h, 0, True)
                     | Some (m, _) \<Rightarrow> (h, m, False))))"

section \<open>config/config.go\<close>

record SchedulerConfig =
  IntervalHours :: int
  TargetTimes :: "string list"
  SafetyBufferSeconds :: int

section \<open>config/validator.go\<close>

text \<open>\<^verbatim>\<open>isValidTimeFormat\<close>: splitting at the colon gives two parts exactly when the string has one colon.\<close>

definition isValidTimeFormat :: "string \<Rightarrow> bool" where
  "isValidTimeFormat t =
     (if length (filter (\<lambda>c. c = CHR '':'') t) + 1 \<noteq> 2 then False
      else (case Sscanf t of (h, m, err) \<Rightarrow>
              if err then False
              else h \<ge> 0 \<and> h \<le> 23 \<and> m \<ge> 0 \<and> m \<le> 59))"

record timeOfDay =
  hour :: int
  min' :: int

definition parseTime :: "string \<Rightarrow> int \<times> int" where
  "parseTime t = (case Sscanf t of (h, m, _) \<Rightarrow> (h, m))"

text \<open>The element stored into \<open>parsedTimes\<close> for one target time.\<close>

definition parseTod :: "string \<Rightarrow> timeOfDay" where
  "parseTod t = (case parseTime t of (h, m) \<Rightarrow> \<lparr>hour = h, min' = m\<rparr>)"

text \<open>\<^verbatim>\<open>toTime\<close>: the date is 2000-01-01 in UTC, day 10957.\<close>

definition toTime :: "timeOfDay \<Rightarrow> Time" where
  "toTime tod = Date 10957 (hour tod) (min' tod) 0"

text \<open>
  \<^verbatim>\<open>formatTime\<close>: \<^verbatim>\<open>%02d\<close> of an hour or a minute of a \<^verbatim>\<open>Time\<close>, which lies between
  0 and 59, is its two decimal digits.
\<close>

definition pad2 :: "int \<Rightarrow> string" where
  "pad2 n = [char_of (48 + n div 10), char_of (48 + n mod 10)]"

definition formatTime :: "Time \<Rightarrow> string" where
  "formatTime t = pad2 (hourOf t) @ '':'' @ pad2 (minuteOf t)"

definition isTimeInRange :: "Time \<Rightarrow> Time \<Rightarrow> Time \<Rightarrow> bool" where
  "isTimeInRange t start end' =
     (let tSec = hourOf t * 3600 + minuteOf t * 60 + secondOf t;
          startSec = hourOf start * 3600 + minuteOf start * 60 + secondOf start;
          endSec = hourOf end' * 3600 + minuteOf end' * 60 + secondOf end'
      in if startSec < endSec then tSec \<ge> startSec \<and> tSec < endSec
         else tSec \<ge> startSec \<or> tSec < endSec)"

text \<open>
  \<^verbatim>\<open>sort.Slice\<close> as a stable insertion sort. Go sorts fewer than twelve elements by
  insertion and longer slices by a pattern-defeating quicksort; the two can differ only
  in the order of elements that compare equal.
\<close>

fun insertBy :: "('a \<Rightarrow> 'a \<Rightarrow> bool) \<Rightarrow> 'a \<Rightarrow> 'a list \<Rightarrow> 'a list" where
  "insertBy lt x [] = [x]"
| "insertBy lt x (y # ys) =
     (if lt y x then y # insertBy lt x ys else x # y # ys)"

fun sortSlice :: "('a \<Rightarrow> 'a \<Rightarrow> bool) \<Rightarrow> 'a list \<Rightarrow> 'a list" where
  "sortSlice lt [] = []"
| "sortSlice lt (x # xs) = insertBy lt x (sortSlice lt xs)"

definition todLess :: "timeOfDay \<Rightarrow> timeOfDay \<Rightarrow> bool" where
  "todLess a b = (if hour a \<noteq> hour b then hour a < hour b else min' a < min' b)"

text \<open>The arguments of the \<^verbatim>\<open>fmt.Errorf\<close> call, in order.\<close>

record ConflictError =
  firstTime :: string
  secondTime :: string
  firstTriggerFor :: string
  firstTrigger :: string
  secondTriggerFor :: string
  secondTrigger :: string
  windowStart :: string
  windowEnd :: string
  minHours :: int

text \<open>
  The body of the inner loop for one pair of indices. Both indices are below the length
  of \<open>parsedTimes\<close>, which is the length of \<open>targetTimes\<close>, so no read is out of range.
\<close>

definition checkPair ::
  "string list \<Rightarrow> timeOfDay list \<Rightarrow> int \<Rightarrow> Duration \<Rightarrow> nat \<Rightarrow> nat \<Rightarrow> ConflictError option" where
  "checkPair targetTimes parsedTimes intervalHours interval i j =
     (let targetTrigger = Add (toTime (parsedTimes ! i)) (negDuration interval);
          otherTrigger = Add (toTime (parsedTimes ! j)) (negDuration interval);
          quotaEnd = Add otherTrigger interval
      in if isTimeInRange targetTrigger otherTrigger quotaEnd
         then Some \<lparr>firstTime = targetTimes ! i, secondTime = targetTimes ! j,
                    firstTriggerFor = targetTimes ! i, firstTrigger = formatTime targetTrigger,
                    secondTriggerFor = targetTimes ! j, secondTrigger = formatTime otherTrigger,
                    windowStart = formatTime otherTrigger, windowEnd = formatTime quotaEnd,
                    minHours = intervalHours\<rparr>
         else None)"

fun innerLoop ::
  "string list \<Rightarrow> timeOfDay list \<Rightarrow> int \<Rightarrow> Duration \<Rightarrow> nat \<Rightarrow> nat list \<Rightarrow> ConflictError option" where
  "innerLoop targetTimes parsedTimes intervalHours interval i [] = None"
| "innerLoop targetTimes parsedTimes intervalHours interval i (j # js) =
     (if i = j then innerLoop targetTimes parsedTimes intervalHours interval i js
      else (case checkPair targetTimes parsedTimes intervalHours interval i j of
              Some e \<Rightarrow> Some e
            | None \<Rightarrow> innerLoop targetTimes parsedTimes intervalHours interval i js))"

fun outerLoop ::
  "string list \<Rightarrow> timeOfDay list \<Rightarrow> int \<Rightarrow> Duration \<Rightarrow> nat list \<Rightarrow> ConflictError option" where
  "outerLoop targetTimes parsedTimes intervalHours interval [] = None"
| "outerLoop targetTimes parsedTimes intervalHours interval (i # rest) =
     (case innerLoop targetTimes parsedTimes intervalHours interval i [0..<length parsedTimes] of
        Some e \<Rightarrow> Some e
      | None \<Rightarrow> outerLoop targetTimes parsedTimes intervalHours interval rest)"

text \<open>\<^verbatim>\<open>validateTargetTimesConflict\<close>; \<open>None\<close> is the nil error.\<close>

definition validateTargetTimesConflict :: "string list \<Rightarrow> int \<Rightarrow> ConflictError option" where
  "validateTargetTimesConflict targetTimes intervalHours =
     (let parsedTimes = sortSlice todLess (map parseTod targetTimes);
          interval = mulDuration intervalHours Hour
      in outerLoop targetTimes parsedTimes intervalHours interval [0..<length parsedTimes])"

text \<open>\<^verbatim>\<open>ValidateScheduler\<close>, one constructor for each error it returns.\<close>

datatype ValidationError =
    IntervalNotPositive
  | IntervalTooLarge
  | TargetTimesRequired
  | BadTimeFormat string
  | BufferNegative
  | BufferTooLarge
  | Conflicting ConflictError

definition ValidateScheduler :: "SchedulerConfig \<Rightarrow> ValidationError option" where
  "ValidateScheduler c =
     (if IntervalHours c \<le> 0 then Some IntervalNotPositive
      else if IntervalHours c > 168 then Some IntervalTooLarge
      else if length (TargetTimes c) = 0 then Some TargetTimesRequired
      else (case find (\<lambda>t. \<not> isValidTimeFormat t) (TargetTimes c) of
              Some t \<Rightarrow> Some (BadTimeFormat t)
            | None \<Rightarrow>
                if SafetyBufferSeconds c < 0 then Some BufferNegative
                else if SafetyBufferSeconds c > 3600 then Some BufferTooLarge
                else (case validateTargetTimesConflict (TargetTimes c) (IntervalHours c) of
                        Some e \<Rightarrow> Some (Conflicting e)
                      | None \<Rightarrow> None)))"

section \<open>scheduler/calculator.go\<close>

record DailyTrigger =
  TargetTime :: string
  TriggerTime :: Time

text \<open>The loop over the target times; a string that does not scan is skipped.\<close>

fun appendTriggers :: "Time \<Rightarrow> Duration \<Rightarrow> Duration \<Rightarrow> string list \<Rightarrow> DailyTrigger list" where
  "appendTriggers date interval buffer [] = []"
| "appendTriggers date interval buffer (targetStr # rest) =
     (case Sscanf targetStr of (h, m, err) \<Rightarrow>
        if err then appendTriggers date interval buffer rest
        else (let targetTime = Date (civilDay date) h m (zoneOffset date);
                  triggerTime = Add (Add targetTime (negDuration interval)) buffer
              in \<lparr>TargetTime = targetStr, TriggerTime = triggerTime\<rparr>
                   # appendTriggers date interval buffer rest))"

definition triggerBefore :: "DailyTrigger \<Rightarrow> DailyTrigger \<Rightarrow> bool" where
  "triggerBefore a b = Before (TriggerTime a) (TriggerTime b)"

definition CalculateDailyTriggers :: "Time \<Rightarrow> string list \<Rightarrow> int \<Rightarrow> int \<Rightarrow> DailyTrigger list" where
  "CalculateDailyTriggers date targetTimes intervalHours bufferSeconds =
     (let interval = mulDuration intervalHours Hour;
          buffer = mulDuration bufferSeconds Second
      in sortSlice triggerBefore (appendTriggers date interval buffer targetTimes))"

text \<open>The result is the pair \<^verbatim>\<open>(trigger, nextDate)\<close>; the zero \<^verbatim>\<open>TargetTime\<close> is the empty string.\<close>

definition NextTrigger :: "Time \<Rightarrow> string list \<Rightarrow> int \<Rightarrow> int \<Rightarrow> DailyTrigger \<times> Time" where
  "NextTrigger now targetTimes intervalHours bufferSeconds =
     (let today = Truncate now (24 * Hour);
          triggers = CalculateDailyTriggers today targetTimes intervalHours bufferSeconds
      in case find (\<lambda>t. After (TriggerTime t) now) triggers of
           Some t \<Rightarrow> (t, today)
         | None \<Rightarrow>
             (let tomorrow = Add today (24 * Hour);
                  triggers' = CalculateDailyTriggers tomorrow targetTimes intervalHours bufferSeconds
              in case triggers' of
                   t # _ \<Rightarrow> (t, tomorrow)
                 | [] \<Rightarrow> (\<lparr>TargetTime = [], TriggerTime = Add now (24 * Hour)\<rparr>, tomorrow)))"

section \<open>scheduler/scheduler.go\<close>

text \<open>
  What one pass through the loop body reads from outside: whether the context is done
  at the top of the loop, the clock, which arm of the waiting \<^verbatim>\<open>select\<close> is taken,
  what \<^verbatim>\<open>platform.Trigger\<close> returns (\<open>None\<close> is nil) and the clock after it.
\<close>

record Iteration =
  doneAtTop :: bool
  nowAtTop :: Time
  doneInWait :: bool
  triggerResult :: "string option"
  nowAfter :: Time

text \<open>What the loop does to the outside: its log lines and its calls of the platform.\<close>

datatype Event =
    LogStarted
  | LogFirst DailyTrigger
  | LogWaiting
  | LogTriggering string
  | CallTrigger
  | LogError string
  | LogSuccess
  | LogNext DailyTrigger

text \<open>
  The loop either returns \<^verbatim>\<open>ctx.Err()\<close> or is still running, holding \<open>nextTrigger\<close>,
  when the recorded iterations are used up.
\<close>

datatype Outcome = Returned_ctxErr | Running DailyTrigger

fun mainLoop :: "SchedulerConfig \<Rightarrow> DailyTrigger \<Rightarrow> Iteration list \<Rightarrow> Event list \<times> Outcome" where
  "mainLoop cfg nextTrigger [] = ([], Running nextTrigger)"
| "mainLoop cfg nextTrigger (it # its) =
     (if doneAtTop it then ([], Returned_ctxErr)
      else if After (TriggerTime nextTrigger) (nowAtTop it) \<and> doneInWait it
      then ([LogWaiting], Returned_ctxErr)
      else
        (let waited = (if After (TriggerTime nextTrigger) (nowAtTop it) then [LogWaiting] else []);
             result = (case triggerResult it of Some err \<Rightarrow> LogError err | None \<Rightarrow> LogSuccess);
             nextTrigger' = fst (NextTrigger (nowAfter it) (TargetTimes cfg) (IntervalHours cfg)
                                  (SafetyBufferSeconds cfg));
             r = mainLoop cfg nextTrigger' its
         in (waited @ [LogTriggering (TargetTime nextTrigger), CallTrigger, result, LogNext nextTrigger']
               @ fst r, snd r)))"

definition Start :: "SchedulerConfig \<Rightarrow> Time \<Rightarrow> Iteration list \<Rightarrow> Event list \<times> Outcome" where
  "Start cfg now its =
     (let nextTrigger = fst (NextTrigger now (TargetTimes cfg) (IntervalHours cfg)
                               (SafetyBufferSeconds cfg));
          r = mainLoop cfg nextTrigger its
      in ([LogStarted, LogFirst nextTrigger] @ fst r, snd r))"

text \<open>The method \<^verbatim>\<open>(s *Scheduler) NextTrigger\<close>, with the clock reading as argument.\<close>

definition Scheduler_NextTrigger :: "SchedulerConfig \<Rightarrow> Time \<Rightarrow> DailyTrigger" where
  "Scheduler_NextTrigger cfg now =
     fst (NextTrigger now (TargetTimes cfg) (IntervalHours cfg) (SafetyBufferSeconds cfg))"

section \<open>Notions of the specification\<close>

text \<open>Seconds since midnight on the clock face of a time value.\<close>

definition secOfDay :: "Time \<Rightarrow> int" where
  "secOfDay t = localSec t mod 86400"

text \<open>
  The containment test in the words of the specification: ordinary containment when
  \<open>start \<le> end\<close>, spanning midnight when \<open>start > end\<close>.
\<close>

definition inInterval :: "int \<Rightarrow> int \<Rightarrow> int \<Rightarrow> bool" where
  "inInterval t start end' =
     (if start \<le> end' then t \<ge> start \<and> t < end' else t \<ge> start \<or> t < end')"

text \<open>
  The same test with the boundary case moved: a range whose two ends coincide is the
  whole day.
\<close>

definition inWindow :: "int \<Rightarrow> int \<Rightarrow> int \<Rightarrow> bool" where
  "inWindow t start end' =
     (if start < end' then t \<ge> start \<and> t < end' else t \<ge> start \<or> t < end')"

text \<open>
  A target time in seconds since midnight, its trigger \<open>intervalHours\<close> earlier and the
  end of the quota window the trigger opens, both modulo 24 hours.
\<close>

definition targetSec :: "string \<Rightarrow> int" where
  "targetSec s = (case parseTime s of (h, m) \<Rightarrow> h * 3600 + m * 60)"

definition triggerSec :: "string \<Rightarrow> int \<Rightarrow> int" where
  "triggerSec s intervalHours = (targetSec s - intervalHours * 3600) mod 86400"

definition quotaEndSec :: "string \<Rightarrow> int \<Rightarrow> int" where
  "quotaEndSec s intervalHours = (triggerSec s intervalHours + intervalHours * 3600) mod 86400"

text \<open>An instant given by calendar date, clock time and offset of the zone from UTC.\<close>

definition instant :: "int \<Rightarrow> int \<Rightarrow> int \<Rightarrow> int \<Rightarrow> int \<Rightarrow> int \<Rightarrow> int \<Rightarrow> Time" where
  "instant y mo d h mi s loc =
     \<lparr>unixNano = (daysFromCivil y mo d * 86400 + h * 3600 + mi * 60 + s - loc) * 1000000000,
      zoneOffset = loc\<rparr>"

text \<open>
  The trigger instant of one target time on the civil day of \<open>date\<close>: that day at the
  target time, minus the interval, plus the buffer, as an absolute instant in exact
  arithmetic.
\<close>

definition triggerInstant :: "Time \<Rightarrow> string \<Rightarrow> int \<Rightarrow> int \<Rightarrow> Time" where
  "triggerInstant date s intervalHours bufferSeconds =
     \<lparr>unixNano = (civilDay date * 86400 + targetSec s - zoneOffset date
                   - intervalHours * 3600 + bufferSeconds) * 1000000000,
      zoneOffset = zoneOffset date\<rparr>"

definition triggerFor :: "Time \<Rightarrow> int \<Rightarrow> int \<Rightarrow> string \<Rightarrow> DailyTrigger" where
  "triggerFor date intervalHours bufferSeconds s =
     \<lparr>TargetTime = s, TriggerTime = triggerInstant date s intervalHours bufferSeconds\<rparr>"

section \<open>Durations and the clock face\<close>

lemma wrap64_id: "- (2 ^ 63) \<le> x \<Longrightarrow> x < 2 ^ 63 \<Longrightarrow> wrap64 x = x"
  by (simp add: wrap64_def)

lemma interval_hours:
  assumes "\<bar>ih\<bar> \<le> 2562047"
  shows "mulDuration ih Hour = ih * 3600000000000"
    and "negDuration (ih * 3600000000000) = - (ih * 3600000000000)"
proof -
  from assms have r: "- (2 ^ 63) \<le> ih * 3600000000000" "ih * 3600000000000 < 2 ^ 63"
    "- (2 ^ 63) \<le> - (ih * 3600000000000)" "- (ih * 3600000000000) < 2 ^ 63"
    by simp_all
  show "mulDuration ih Hour = ih * 3600000000000"
    using r by (simp add: mulDuration_def Hour_def wrap64_id)
  show "negDuration (ih * 3600000000000) = - (ih * 3600000000000)"
    unfolding negDuration_def using r by (simp add: wrap64_id)
qed

lemma buffer_seconds:
  assumes "\<bar>bs\<bar> \<le> 9223372036"
  shows "mulDuration bs Second = bs * 1000000000"
proof -
  from assms have "- (2 ^ 63) \<le> bs * 1000000000" "bs * 1000000000 < 2 ^ 63"
    by simp_all
  then show ?thesis
    by (simp add: mulDuration_def Second_def wrap64_id)
qed

lemma clock_face: "hourOf t * 3600 + minuteOf t * 60 + secondOf t = secOfDay t"
proof -
  define x where "x = localSec t"
  have a: "x mod 86400 = (x mod 86400) div 3600 * 3600 + (x mod 86400) mod 3600"
    by simp
  have b: "(x mod 86400) mod 3600 = x mod 3600"
    by (simp add: mod_mod_cancel)
  have c: "x mod 3600 = (x mod 3600) div 60 * 60 + (x mod 3600) mod 60"
    by simp
  have d: "(x mod 3600) mod 60 = x mod 60"
    by (simp add: mod_mod_cancel)
  show ?thesis
    unfolding hourOf_def minuteOf_def secondOf_def secOfDay_def x_def [symmetric]
    using a b c d by linarith
qed

lemma isTimeInRange_secOfDay:
  "isTimeInRange t s e = inWindow (secOfDay t) (secOfDay s) (secOfDay e)"
  by (simp add: isTimeInRange_def inWindow_def clock_face Let_def)

lemma drop_day_2000: "(10957 * 86400 + x) mod 86400 = x mod (86400::int)"
  using mod_mult_self4 [of 86400 10957 x] by simp

lemma secOfDay_toTime_trigger:
  "secOfDay (Add (toTime p) (- (ih * 3600000000000))) =
     (hour p * 3600 + min' p * 60 - ih * 3600) mod 86400"
proof -
  have "(10957 * 86400 + hour p * 3600 + min' p * 60 - 0) * 1000000000 - ih * 3600000000000
      = (10957 * 86400 + hour p * 3600 + min' p * 60 - ih * 3600) * 1000000000"
    by (simp add: algebra_simps)
  then have "localSec (Add (toTime p) (- (ih * 3600000000000))) =
      10957 * 86400 + (hour p * 3600 + min' p * 60 - ih * 3600)"
    by (simp add: localSec_def Add_def toTime_def Date_def)
  then show ?thesis
    by (simp only: secOfDay_def drop_day_2000)
qed

lemma secOfDay_toTime_quotaEnd:
  "secOfDay (Add (Add (toTime p) (- (ih * 3600000000000))) (ih * 3600000000000)) =
     (hour p * 3600 + min' p * 60) mod 86400"
proof -
  have "localSec (Add (Add (toTime p) (- (ih * 3600000000000))) (ih * 3600000000000)) =
      10957 * 86400 + (hour p * 3600 + min' p * 60)"
    by (simp add: localSec_def Add_def toTime_def Date_def)
  then show ?thesis
    by (simp only: secOfDay_def drop_day_2000)
qed

lemma targetSec_parseTod: "hour (parseTod s) * 3600 + min' (parseTod s) * 60 = targetSec s"
  by (simp add: parseTod_def targetSec_def split: prod.splits)

lemma secOfDay_trigger:
  "secOfDay (Add (toTime (parseTod s)) (- (ih * 3600000000000))) = triggerSec s ih"
  by (simp only: secOfDay_toTime_trigger targetSec_parseTod triggerSec_def)

lemma quotaEndSec_target: "quotaEndSec s ih = targetSec s mod 86400"
  by (simp add: quotaEndSec_def triggerSec_def mod_add_left_eq)

lemma secOfDay_quotaEnd:
  "secOfDay (Add (Add (toTime (parseTod s)) (- (ih * 3600000000000))) (ih * 3600000000000))
     = quotaEndSec s ih"
  by (simp only: secOfDay_toTime_quotaEnd targetSec_parseTod quotaEndSec_target)

section \<open>Pairs of positions of a list\<close>

lemma sub_add: "(A::'a multiset) \<subseteq># M \<Longrightarrow> A \<subseteq># add_mset a M"
  by (meson multi_psub_of_add_self subset_mset.le_less subset_mset.trans)

lemma sub_pair_step:
  assumes "{#x, y#} \<subseteq># add_mset a (mset as)"
  shows "(x = a \<and> y \<in># mset as) \<or> (y = a \<and> x \<in># mset as) \<or> {#x, y#} \<subseteq># mset as"
  using assms
  by (metis add_mset_remove_trivial insert_iff insert_subset_eq_iff
    inter_add_right1 set_mset_add_mset_insert set_mset_empty singletonD
    subset_mset.inf.orderE subset_mset.inf.orderI)

lemma nth_pair_sub:
  "i < j \<Longrightarrow> j < length xs \<Longrightarrow> {#xs ! i, xs ! j#} \<subseteq># mset xs"
proof (induction xs arbitrary: i j)
  case Nil
  then show ?case by simp
next
  case (Cons a as)
  from Cons.prems obtain j' where j: "j = Suc j'" by (cases j) auto
  show ?case
  proof (cases i)
    case 0
    have "as ! j' \<in># mset as" using Cons.prems j by simp
    then show ?thesis using 0 j by (simp add: insert_subset_eq_iff)
  next
    case (Suc i')
    then have "{#as ! i', as ! j'#} \<subseteq># mset as"
      using Cons.IH [of i' j'] Cons.prems j by simp
    then have "{#as ! i', as ! j'#} \<subseteq># add_mset a (mset as)"
      by (rule sub_add)
    then show ?thesis using Suc j by simp
  qed
qed

lemma sub_pair_nth:
  "{#x, y#} \<subseteq># mset xs \<Longrightarrow>
     \<exists>i j. i < length xs \<and> j < length xs \<and> i \<noteq> j \<and> xs ! i = x \<and> xs ! j = y"
proof (induction xs)
  case Nil
  then show ?case by simp
next
  case (Cons a as)
  from sub_pair_step [of x y a as] Cons.prems
  consider (first) "x = a" "y \<in> set as" | (second) "y = a" "x \<in> set as"
    | (rest) "{#x, y#} \<subseteq># mset as"
    by auto
  then show ?case
  proof cases
    case first
    then obtain k where "k < length as" "as ! k = y" by (auto simp: in_set_conv_nth)
    then have "0 < length (a # as) \<and> Suc k < length (a # as) \<and> 0 \<noteq> Suc k
        \<and> (a # as) ! 0 = x \<and> (a # as) ! Suc k = y"
      using first by simp
    then show ?thesis by blast
  next
    case second
    then obtain k where "k < length as" "as ! k = x" by (auto simp: in_set_conv_nth)
    then have "Suc k < length (a # as) \<and> 0 < length (a # as) \<and> Suc k \<noteq> 0
        \<and> (a # as) ! Suc k = x \<and> (a # as) ! 0 = y"
      using second by simp
    then show ?thesis by blast
  next
    case rest
    from Cons.IH [OF rest] obtain i j where
      "i < length as" "j < length as" "i \<noteq> j" "as ! i = x" "as ! j = y" by blast
    then have "Suc i < length (a # as) \<and> Suc j < length (a # as) \<and> Suc i \<noteq> Suc j
        \<and> (a # as) ! Suc i = x \<and> (a # as) ! Suc j = y"
      by simp
    then show ?thesis by blast
  qed
qed

lemma pair_in_mset:
  "(\<exists>i<length xs. \<exists>j<length xs. i \<noteq> j \<and> P (xs ! i) (xs ! j)) \<longleftrightarrow>
   (\<exists>x y. {#x, y#} \<subseteq># mset xs \<and> P x y)"
proof
  assume "\<exists>i<length xs. \<exists>j<length xs. i \<noteq> j \<and> P (xs ! i) (xs ! j)"
  then obtain i j where ij: "i < length xs" "j < length xs" "i \<noteq> j" "P (xs ! i) (xs ! j)"
    by blast
  have "{#xs ! i, xs ! j#} \<subseteq># mset xs"
  proof (cases "i < j")
    case True
    then show ?thesis using ij nth_pair_sub by blast
  next
    case False
    then have "j < i" using ij by simp
    then have "{#xs ! j, xs ! i#} \<subseteq># mset xs" using ij nth_pair_sub by blast
    then show ?thesis by (simp add: add_mset_commute)
  qed
  then show "\<exists>x y. {#x, y#} \<subseteq># mset xs \<and> P x y" using ij by blast
next
  assume "\<exists>x y. {#x, y#} \<subseteq># mset xs \<and> P x y"
  then obtain x y where xy: "{#x, y#} \<subseteq># mset xs" "P x y" by blast
  from sub_pair_nth [OF xy(1)] xy(2)
  show "\<exists>i<length xs. \<exists>j<length xs. i \<noteq> j \<and> P (xs ! i) (xs ! j)" by blast
qed

lemma pair_perm:
  assumes "mset xs = mset ys"
  shows "(\<exists>i<length xs. \<exists>j<length xs. i \<noteq> j \<and> P (xs ! i) (xs ! j)) \<longleftrightarrow>
         (\<exists>i<length ys. \<exists>j<length ys. i \<noteq> j \<and> P (ys ! i) (ys ! j))"
  by (simp only: pair_in_mset assms)

section \<open>The sort\<close>

lemma mset_insertBy: "mset (insertBy lt x xs) = add_mset x (mset xs)"
  by (induction xs) auto

lemma mset_sortSlice: "mset (sortSlice lt xs) = mset xs"
  by (induction xs) (auto simp: mset_insertBy)

section \<open>The conflict validator\<close>

lemma innerLoop_None:
  "innerLoop ts ps ih iv i js = None \<longleftrightarrow>
     (\<forall>j\<in>set js. j \<noteq> i \<longrightarrow> checkPair ts ps ih iv i j = None)"
  by (induction js) (auto split: option.splits)

lemma outerLoop_None:
  "outerLoop ts ps ih iv ks = None \<longleftrightarrow>
     (\<forall>i\<in>set ks. innerLoop ts ps ih iv i [0..<length ps] = None)"
  by (induction ks) (auto split: option.splits)

lemma checkPair_None:
  "checkPair ts ps ih iv i j = None \<longleftrightarrow>
     \<not> isTimeInRange (Add (toTime (ps ! i)) (negDuration iv))
         (Add (toTime (ps ! j)) (negDuration iv))
         (Add (Add (toTime (ps ! j)) (negDuration iv)) iv)"
  by (simp add: checkPair_def Let_def)

lemma validate_None_sorted:
  assumes "\<bar>ih\<bar> \<le> 2562047"
  shows "validateTargetTimesConflict ts ih = None \<longleftrightarrow>
     \<not> (\<exists>i<length (sortSlice todLess (map parseTod ts)).
          \<exists>j<length (sortSlice todLess (map parseTod ts)). i \<noteq> j \<and>
          isTimeInRange
            (Add (toTime (sortSlice todLess (map parseTod ts) ! i)) (- (ih * 3600000000000)))
            (Add (toTime (sortSlice todLess (map parseTod ts) ! j)) (- (ih * 3600000000000)))
            (Add (Add (toTime (sortSlice todLess (map parseTod ts) ! j)) (- (ih * 3600000000000)))
               (ih * 3600000000000)))"
  unfolding validateTargetTimesConflict_def Let_def outerLoop_None innerLoop_None
    checkPair_None interval_hours [OF assms]
  by auto blast

lemma validate_None_pairs:
  assumes "\<bar>ih\<bar> \<le> 2562047"
  shows "validateTargetTimesConflict ts ih = None \<longleftrightarrow>
     (\<forall>i<length ts. \<forall>j<length ts. i \<noteq> j \<longrightarrow>
        \<not> inWindow (triggerSec (ts ! i) ih) (triggerSec (ts ! j) ih) (quotaEndSec (ts ! j) ih))"
proof -
  let ?P = "\<lambda>a b. isTimeInRange (Add (toTime a) (- (ih * 3600000000000)))
            (Add (toTime b) (- (ih * 3600000000000)))
            (Add (Add (toTime b) (- (ih * 3600000000000))) (ih * 3600000000000))"
  let ?qs = "map parseTod ts"
  have "validateTargetTimesConflict ts ih = None \<longleftrightarrow>
      \<not> (\<exists>i<length (sortSlice todLess ?qs). \<exists>j<length (sortSlice todLess ?qs). i \<noteq> j \<and>
           ?P (sortSlice todLess ?qs ! i) (sortSlice todLess ?qs ! j))"
    by (rule validate_None_sorted [OF assms])
  also have "\<dots> \<longleftrightarrow> \<not> (\<exists>i<length ?qs. \<exists>j<length ?qs. i \<noteq> j \<and> ?P (?qs ! i) (?qs ! j))"
    using pair_perm [of "sortSlice todLess ?qs" ?qs ?P] by (simp only: mset_sortSlice)
  also have "\<dots> \<longleftrightarrow> (\<forall>i<length ts. \<forall>j<length ts. i \<noteq> j \<longrightarrow>
        \<not> inWindow (triggerSec (ts ! i) ih) (triggerSec (ts ! j) ih) (quotaEndSec (ts ! j) ih))"
    by (auto simp: isTimeInRange_secOfDay secOfDay_trigger secOfDay_quotaEnd)
  finally show ?thesis .
qed

lemma whole_days: "24 dvd ih \<Longrightarrow> (x - ih * 3600) mod 86400 = x mod (86400::int)"
proof -
  assume "24 dvd ih"
  then obtain k where "ih = 24 * k" by (auto simp: dvd_def)
  then have "x - ih * 3600 = x + 86400 * (- k)" by simp
  then show ?thesis by (simp only: mod_mult_self2)
qed

lemma inWindow_same: "inWindow a b b"
  by (auto simp: inWindow_def)

lemma checkPair_whole_days:
  assumes "24 dvd ih" "\<bar>ih\<bar> \<le> 2562047"
  shows "checkPair ts ps ih (mulDuration ih Hour) i j \<noteq> None"
  by (simp only: checkPair_None interval_hours [OF assms(2)] isTimeInRange_secOfDay
      secOfDay_toTime_trigger secOfDay_toTime_quotaEnd whole_days [OF assms(1)] inWindow_same
      not_not)

lemma validate_whole_days:
  assumes "24 dvd ih" "\<bar>ih\<bar> \<le> 2562047" "2 \<le> length ts"
  shows "validateTargetTimesConflict ts ih \<noteq> None"
proof
  assume "validateTargetTimesConflict ts ih = None"
  then have "\<forall>i<length ts. \<forall>j<length ts. i \<noteq> j \<longrightarrow>
      \<not> inWindow (triggerSec (ts ! i) ih) (triggerSec (ts ! j) ih) (quotaEndSec (ts ! j) ih)"
    using validate_None_pairs [OF assms(2), of ts] by blast
  moreover have "0 < length ts" "1 < length ts" "(0::nat) \<noteq> 1"
    using assms(3) by auto
  ultimately have
    "\<not> inWindow (triggerSec (ts ! 0) ih) (triggerSec (ts ! 1) ih) (quotaEndSec (ts ! 1) ih)"
    by blast
  moreover have "triggerSec (ts ! 1) ih = quotaEndSec (ts ! 1) ih"
    by (simp only: quotaEndSec_target triggerSec_def whole_days [OF assms(1)])
  ultimately show False by (simp add: inWindow_same)
qed

text \<open>An interval outside 1 to 168 hours is refused before the conflict check is reached.\<close>

lemma ValidateScheduler_whole_days:
  assumes "24 dvd IntervalHours c" "2 \<le> length (TargetTimes c)"
  shows "ValidateScheduler c \<noteq> None"
proof (cases "0 < IntervalHours c \<and> IntervalHours c \<le> 168")
  case True
  then have "\<bar>IntervalHours c\<bar> \<le> 2562047" by simp
  from validate_whole_days [OF assms(1) this assms(2)] show ?thesis
    by (auto simp: ValidateScheduler_def split: option.splits)
next
  case False
  then show ?thesis
    by (auto simp: ValidateScheduler_def)
qed

lemma ends_differ:
  assumes "\<not> 24 dvd ih"
  shows "triggerSec s ih \<noteq> quotaEndSec s ih"
proof
  assume "triggerSec s ih = quotaEndSec s ih"
  then have "(targetSec s - ih * 3600) mod 86400 = targetSec s mod 86400"
    by (simp only: quotaEndSec_target triggerSec_def)
  then have "86400 dvd (targetSec s - ih * 3600) - targetSec s"
    by (simp only: mod_eq_dvd_iff)
  then have "24 * 3600 dvd ih * 3600"
    by simp
  then have "24 dvd ih"
    by (simp only: dvd_mult_cancel_right) simp
  with assms show False by simp
qed

lemma inWindow_inInterval: "b \<noteq> e \<Longrightarrow> inWindow a b e = inInterval a b e"
  by (auto simp: inWindow_def inInterval_def)

lemma valid_scan:
  assumes "isValidTimeFormat t"
  obtains h m where "Sscanf t = (h, m, False)" "0 \<le> h" "h \<le> 23" "0 \<le> m" "m \<le> 59"
proof -
  obtain h m err where s: "Sscanf t = (h, m, err)"
    by (metis prod_cases3)
  from assms s have "\<not> err" "0 \<le> h" "h \<le> 23" "0 \<le> m" "m \<le> 59"
    by (auto simp: isValidTimeFormat_def split: if_splits)
  with s that show thesis by auto
qed

lemma valid_targetSec:
  assumes "isValidTimeFormat t"
  shows "0 \<le> targetSec t \<and> targetSec t < 86400"
proof -
  from assms obtain h m where "Sscanf t = (h, m, False)" "0 \<le> h" "h \<le> 23" "0 \<le> m" "m \<le> 59"
    by (rule valid_scan)
  then show ?thesis
    by (simp add: targetSec_def parseTime_def)
qed

section \<open>Containment on the clock face\<close>

text \<open>
  Claim C3, as amended. For all time values \<open>t\<close>, \<open>start\<close> and \<open>end\<close>, read as seconds
  since midnight, \<open>isTimeInRange\<close> is ordinary containment \<open>start \<le> t < end\<close> when
  \<open>start < end\<close>, and \<open>t \<ge> start \<or> t < end\<close> when \<open>start \<ge> end\<close>. It agrees with the
  test worded in the specification whenever the two ends differ. 23:30 lies in the range
  from 22:00 to 02:00 and 12:00 does not.
\<close>

theorem isTimeInRange_wraparound:
  "isTimeInRange t start end' =
     (if secOfDay start < secOfDay end'
      then secOfDay t \<ge> secOfDay start \<and> secOfDay t < secOfDay end'
      else secOfDay t \<ge> secOfDay start \<or> secOfDay t < secOfDay end')
   \<and> (secOfDay start \<noteq> secOfDay end' \<longrightarrow>
        isTimeInRange t start end' = inInterval (secOfDay t) (secOfDay start) (secOfDay end'))
   \<and> secOfDay (toTime \<lparr>hour = 23, min' = 30\<rparr>) = 23 * 3600 + 30 * 60
   \<and> secOfDay (toTime \<lparr>hour = 22, min' = 0\<rparr>) = 22 * 3600
   \<and> secOfDay (toTime \<lparr>hour = 2, min' = 0\<rparr>) = 2 * 3600
   \<and> secOfDay (toTime \<lparr>hour = 12, min' = 0\<rparr>) = 12 * 3600
   \<and> isTimeInRange (toTime \<lparr>hour = 23, min' = 30\<rparr>) (toTime \<lparr>hour = 22, min' = 0\<rparr>)
        (toTime \<lparr>hour = 2, min' = 0\<rparr>)
   \<and> \<not> isTimeInRange (toTime \<lparr>hour = 12, min' = 0\<rparr>) (toTime \<lparr>hour = 22, min' = 0\<rparr>)
        (toTime \<lparr>hour = 2, min' = 0\<rparr>)"
proof -
  have sec: "secOfDay (toTime \<lparr>hour = h, min' = m\<rparr>) = (h * 3600 + m * 60) mod 86400" for h m
    using secOfDay_toTime_quotaEnd [of "\<lparr>hour = h, min' = m\<rparr>" 0] by (simp add: Add_def)
  have general: "isTimeInRange t start end' =
     (if secOfDay start < secOfDay end'
      then secOfDay t \<ge> secOfDay start \<and> secOfDay t < secOfDay end'
      else secOfDay t \<ge> secOfDay start \<or> secOfDay t < secOfDay end')"
    by (simp add: isTimeInRange_secOfDay inWindow_def)
  have spec: "secOfDay start \<noteq> secOfDay end' \<longrightarrow>
        isTimeInRange t start end' = inInterval (secOfDay t) (secOfDay start) (secOfDay end')"
    by (simp add: isTimeInRange_secOfDay inWindow_def inInterval_def)
  have ex1: "isTimeInRange (toTime \<lparr>hour = 23, min' = 30\<rparr>) (toTime \<lparr>hour = 22, min' = 0\<rparr>)
        (toTime \<lparr>hour = 2, min' = 0\<rparr>)"
    by (simp add: isTimeInRange_secOfDay inWindow_def sec)
  have ex2: "\<not> isTimeInRange (toTime \<lparr>hour = 12, min' = 0\<rparr>) (toTime \<lparr>hour = 22, min' = 0\<rparr>)
        (toTime \<lparr>hour = 2, min' = 0\<rparr>)"
    by (simp add: isTimeInRange_secOfDay inWindow_def sec)
  show ?thesis
    using general spec ex1 ex2 by (simp only: sec) simp
qed

text \<open>The theorem at 10:00 in the range from 09:00 to 14:00, whose ends differ.\<close>

theorem isTimeInRange_wraparound_witness:
  "secOfDay (toTime \<lparr>hour = 9, min' = 0\<rparr>) \<noteq> secOfDay (toTime \<lparr>hour = 14, min' = 0\<rparr>)
   \<and> isTimeInRange (toTime \<lparr>hour = 10, min' = 0\<rparr>) (toTime \<lparr>hour = 9, min' = 0\<rparr>)
        (toTime \<lparr>hour = 14, min' = 0\<rparr>)
   \<and> inInterval (secOfDay (toTime \<lparr>hour = 10, min' = 0\<rparr>)) (secOfDay (toTime \<lparr>hour = 9, min' = 0\<rparr>))
        (secOfDay (toTime \<lparr>hour = 14, min' = 0\<rparr>))"
proof -
  have ne: "secOfDay (toTime \<lparr>hour = 9, min' = 0\<rparr>) \<noteq> secOfDay (toTime \<lparr>hour = 14, min' = 0\<rparr>)"
    by code_simp
  have inI: "inInterval (secOfDay (toTime \<lparr>hour = 10, min' = 0\<rparr>)) (secOfDay (toTime \<lparr>hour = 9, min' = 0\<rparr>))
        (secOfDay (toTime \<lparr>hour = 14, min' = 0\<rparr>))"
    by code_simp
  from isTimeInRange_wraparound [of "toTime \<lparr>hour = 10, min' = 0\<rparr>" "toTime \<lparr>hour = 9, min' = 0\<rparr>"
      "toTime \<lparr>hour = 14, min' = 0\<rparr>"] ne inI
  show ?thesis by blast
qed

text \<open>
  Claim C3 as stated fails where the two ends coincide: with \<open>start = end =\<close> 09:00 the
  claim's ordinary containment is empty, yet \<open>isTimeInRange\<close> holds of 12:00.
\<close>

theorem isTimeInRange_equal_ends_counterexample:
  "secOfDay (toTime \<lparr>hour = 12, min' = 0\<rparr>) = 43200
   \<and> secOfDay (toTime \<lparr>hour = 9, min' = 0\<rparr>) = 32400
   \<and> isTimeInRange (toTime \<lparr>hour = 12, min' = 0\<rparr>) (toTime \<lparr>hour = 9, min' = 0\<rparr>)
        (toTime \<lparr>hour = 9, min' = 0\<rparr>)
   \<and> \<not> inInterval 43200 32400 32400
   \<and> (32400::int) \<le> 32400 \<and> \<not> (43200 \<ge> (32400::int) \<and> 43200 < (32400::int))"
  by code_simp

text \<open>
  Claim C10. When start and end show the same time of day the test holds of every time.
  Hence, when \<open>intervalHours\<close> is a multiple of 24 (and its duration fits int64), the
  test of the inner loop succeeds for every pair of distinct indices, and validation of
  two or more target times returns an error. \<open>ValidateScheduler\<close> refuses every
  configuration with such an interval and two or more target times.
\<close>

theorem degenerate_window:
  "(secOfDay start = secOfDay end' \<longrightarrow> isTimeInRange t start end')
   \<and> (24 dvd ih \<and> \<bar>ih\<bar> \<le> 2562047 \<longrightarrow>
        (\<forall>i<length ts. \<forall>j<length ts. i \<noteq> j \<longrightarrow>
           checkPair ts (sortSlice todLess (map parseTod ts)) ih (mulDuration ih Hour) i j \<noteq> None)
        \<and> (2 \<le> length ts \<longrightarrow> validateTargetTimesConflict ts ih \<noteq> None))
   \<and> (24 dvd IntervalHours c \<and> 2 \<le> length (TargetTimes c) \<longrightarrow> ValidateScheduler c \<noteq> None)"
proof (intro conjI impI allI)
  assume "secOfDay start = secOfDay end'"
  then show "isTimeInRange t start end'"
    by (simp add: isTimeInRange_secOfDay inWindow_same)
next
  fix i j
  assume "24 dvd ih \<and> \<bar>ih\<bar> \<le> 2562047"
  then show "checkPair ts (sortSlice todLess (map parseTod ts)) ih (mulDuration ih Hour) i j \<noteq> None"
    by (simp add: checkPair_whole_days)
next
  assume "24 dvd ih \<and> \<bar>ih\<bar> \<le> 2562047" and "2 \<le> length ts"
  then show "validateTargetTimesConflict ts ih \<noteq> None"
    by (simp add: validate_whole_days)
next
  assume "24 dvd IntervalHours c \<and> 2 \<le> length (TargetTimes c)"
  then show "ValidateScheduler c \<noteq> None"
    by (simp add: ValidateScheduler_whole_days)
qed

text \<open>The theorem at \<open>intervalHours = 24\<close> with the targets 09:00 and 21:00.\<close>

theorem degenerate_window_witness:
  "24 dvd (24::int) \<and> \<bar>24::int\<bar> \<le> 2562047 \<and> 2 \<le> length [''09:00'', ''21:00'']
   \<and> validateTargetTimesConflict [''09:00'', ''21:00''] 24 \<noteq> None
   \<and> ValidateScheduler \<lparr>IntervalHours = 24, TargetTimes = [''09:00'', ''21:00''],
        SafetyBufferSeconds = 60\<rparr> \<noteq> None
   \<and> secOfDay (toTime \<lparr>hour = 9, min' = 0\<rparr>) = secOfDay (toTime \<lparr>hour = 9, min' = 0\<rparr>)
   \<and> isTimeInRange (toTime \<lparr>hour = 12, min' = 0\<rparr>) (toTime \<lparr>hour = 9, min' = 0\<rparr>)
        (toTime \<lparr>hour = 9, min' = 0\<rparr>)"
proof -
  let ?c = "\<lparr>IntervalHours = 24, TargetTimes = [''09:00'', ''21:00''], SafetyBufferSeconds = 60\<rparr>"
  have h: "24 dvd (24::int)" "\<bar>24::int\<bar> \<le> 2562047" "2 \<le> length [''09:00'', ''21:00'']"
    by simp_all
  have g: "24 dvd IntervalHours ?c" "2 \<le> length (TargetTimes ?c)"
    by simp_all
  note w = degenerate_window [where start = "toTime \<lparr>hour = 9, min' = 0\<rparr>"
      and end' = "toTime \<lparr>hour = 9, min' = 0\<rparr>" and t = "toTime \<lparr>hour = 12, min' = 0\<rparr>"
      and ih = 24 and ts = "[''09:00'', ''21:00'']" and c = ?c]
  from w h have "validateTargetTimesConflict [''09:00'', ''21:00''] 24 \<noteq> None"
    by blast
  moreover from w g have "ValidateScheduler ?c \<noteq> None"
    by blast
  moreover from w have "isTimeInRange (toTime \<lparr>hour = 12, min' = 0\<rparr>)
      (toTime \<lparr>hour = 9, min' = 0\<rparr>) (toTime \<lparr>hour = 9, min' = 0\<rparr>)"
    by blast
  ultimately show ?thesis using h by simp
qed

section \<open>Validation succeeds exactly when no pair conflicts\<close>

text \<open>
  Claim C1, as amended. For well-formed target times and an interval whose duration fits
  int64, validation succeeds if and only if for every ordered pair of distinct indices
  \<open>(i, j)\<close> the trigger of target \<open>i\<close> (the target minus the interval, modulo 24 hours)
  is outside the window from the trigger of target \<open>j\<close> to that trigger plus the
  interval (modulo 24 hours), where a window whose two ends coincide is the whole day.
  When the interval is not a multiple of 24 hours the ends of a window differ, and the
  same holds with the containment test worded in the specification.
  With an interval of 5 hours and the targets 14:00 and 18:00 validation fails: the
  trigger of 18:00 is 13:00, inside the window from 09:00 to 14:00.
\<close>

theorem validate_iff_no_pair_in_window:
  assumes "\<forall>t\<in>set targetTimes. isValidTimeFormat t" and "\<bar>intervalHours\<bar> \<le> 2562047"
  shows "(validateTargetTimesConflict targetTimes intervalHours = None \<longleftrightarrow>
          (\<forall>i<length targetTimes. \<forall>j<length targetTimes. i \<noteq> j \<longrightarrow>
             \<not> inWindow (triggerSec (targetTimes ! i) intervalHours)
                 (triggerSec (targetTimes ! j) intervalHours)
                 (quotaEndSec (targetTimes ! j) intervalHours)))
       \<and> (\<not> 24 dvd intervalHours \<longrightarrow>
            (validateTargetTimesConflict targetTimes intervalHours = None \<longleftrightarrow>
             (\<forall>i<length targetTimes. \<forall>j<length targetTimes. i \<noteq> j \<longrightarrow>
                \<not> inInterval (triggerSec (targetTimes ! i) intervalHours)
                    (triggerSec (targetTimes ! j) intervalHours)
                    (quotaEndSec (targetTimes ! j) intervalHours))))
       \<and> (\<forall>t\<in>set targetTimes. 0 \<le> targetSec t \<and> targetSec t < 86400)
       \<and> validateTargetTimesConflict [''14:00'', ''18:00''] 5 \<noteq> None
       \<and> triggerSec ''18:00'' 5 = 13 * 3600
       \<and> triggerSec ''14:00'' 5 = 9 * 3600
       \<and> quotaEndSec ''14:00'' 5 = 14 * 3600
       \<and> inWindow (13 * 3600) (9 * 3600) (14 * 3600)"
proof -
  have w: "validateTargetTimesConflict targetTimes intervalHours = None \<longleftrightarrow>
          (\<forall>i<length targetTimes. \<forall>j<length targetTimes. i \<noteq> j \<longrightarrow>
             \<not> inWindow (triggerSec (targetTimes ! i) intervalHours)
                 (triggerSec (targetTimes ! j) intervalHours)
                 (quotaEndSec (targetTimes ! j) intervalHours))"
    by (rule validate_None_pairs [OF assms(2)])
  have s: "validateTargetTimesConflict targetTimes intervalHours = None \<longleftrightarrow>
             (\<forall>i<length targetTimes. \<forall>j<length targetTimes. i \<noteq> j \<longrightarrow>
                \<not> inInterval (triggerSec (targetTimes ! i) intervalHours)
                    (triggerSec (targetTimes ! j) intervalHours)
                    (quotaEndSec (targetTimes ! j) intervalHours))"
    if "\<not> 24 dvd intervalHours"
    unfolding w by (simp only: inWindow_inInterval [OF ends_differ [OF that]])
  have r: "\<forall>t\<in>set targetTimes. 0 \<le> targetSec t \<and> targetSec t < 86400"
    using assms(1) valid_targetSec by blast
  have e1: "validateTargetTimesConflict [''14:00'', ''18:00''] 5 \<noteq> None"
    by code_simp
  have e2: "triggerSec ''18:00'' 5 = 13 * 3600" "triggerSec ''14:00'' 5 = 9 * 3600"
    "quotaEndSec ''14:00'' 5 = 14 * 3600" "inWindow (13 * 3600) (9 * 3600) (14 * 3600)"
    by code_simp+
  from w s r e1 e2 show ?thesis
    by (intro conjI impI) assumption+
qed

text \<open>The theorem at the targets 09:00, 14:00, 19:00 and an interval of 5 hours.\<close>

theorem validate_iff_no_pair_in_window_witness:
  "isValidTimeFormat ''09:00'' \<and> isValidTimeFormat ''14:00'' \<and> isValidTimeFormat ''19:00''
   \<and> \<bar>5::int\<bar> \<le> 2562047
   \<and> validateTargetTimesConflict [''09:00'', ''14:00'', ''19:00''] 5 = None
   \<and> \<not> inWindow (triggerSec ''09:00'' 5) (triggerSec ''14:00'' 5) (quotaEndSec ''14:00'' 5)
   \<and> \<not> inWindow (triggerSec ''19:00'' 5) (triggerSec ''09:00'' 5) (quotaEndSec ''09:00'' 5)"
proof -
  have h: "isValidTimeFormat ''09:00''" "isValidTimeFormat ''14:00''" "isValidTimeFormat ''19:00''"
    by code_simp+
  then have h1: "\<forall>t\<in>set [''09:00'', ''14:00'', ''19:00'']. isValidTimeFormat t"
    by simp
  have h2: "\<bar>5::int\<bar> \<le> 2562047" by simp
  have v: "validateTargetTimesConflict [''09:00'', ''14:00'', ''19:00''] 5 = None"
    by code_simp
  from validate_iff_no_pair_in_window [OF h1 h2, THEN conjunct1] v
  have all: "\<forall>i<length [''09:00'', ''14:00'', ''19:00''].
      \<forall>j<length [''09:00'', ''14:00'', ''19:00'']. i \<noteq> j \<longrightarrow>
        \<not> inWindow (triggerSec ([''09:00'', ''14:00'', ''19:00''] ! i) 5)
            (triggerSec ([''09:00'', ''14:00'', ''19:00''] ! j) 5)
            (quotaEndSec ([''09:00'', ''14:00'', ''19:00''] ! j) 5)"
    by blast
  from all [rule_format, of 0 1] all [rule_format, of 2 0]
  have "\<not> inWindow (triggerSec ''09:00'' 5) (triggerSec ''14:00'' 5) (quotaEndSec ''14:00'' 5)"
    "\<not> inWindow (triggerSec ''19:00'' 5) (triggerSec ''09:00'' 5) (quotaEndSec ''09:00'' 5)"
    by simp_all
  with h h2 v show ?thesis by blast
qed

text \<open>
  Claim C1 as stated, with the containment test worded in the specification, fails at
  an interval of 24 hours: for the targets 09:00 and 21:00 neither trigger lies in the
  other's window by that test, whose range from 21:00 to 21:00 is empty, yet validation
  returns a conflict.
\<close>

theorem validate_full_day_counterexample:
  "isValidTimeFormat ''09:00'' \<and> isValidTimeFormat ''21:00''
   \<and> triggerSec ''09:00'' 24 = 32400 \<and> quotaEndSec ''09:00'' 24 = 32400
   \<and> triggerSec ''21:00'' 24 = 75600 \<and> quotaEndSec ''21:00'' 24 = 75600
   \<and> validateTargetTimesConflict [''09:00'', ''21:00''] 24 \<noteq> None
   \<and> \<not> inInterval (triggerSec ''09:00'' 24) (triggerSec ''21:00'' 24) (quotaEndSec ''21:00'' 24)
   \<and> \<not> inInterval (triggerSec ''21:00'' 24) (triggerSec ''09:00'' 24) (quotaEndSec ''09:00'' 24)"
  by code_simp

section \<open>The triggers of one day\<close>

lemma appendTriggers_valid:
  assumes "\<forall>t\<in>set ts. isValidTimeFormat t"
  shows "appendTriggers date (ih * 3600000000000) (bs * 1000000000) ts =
     map (\<lambda>s. \<lparr>TargetTime = s,
                TriggerTime =
                  Add (Add (Date (civilDay date) (fst (parseTime s)) (snd (parseTime s))
                              (zoneOffset date))
                         (negDuration (ih * 3600000000000)))
                    (bs * 1000000000)\<rparr>) ts"
  using assms
proof (induction ts)
  case Nil
  then show ?case by simp
next
  case (Cons t ts)
  then have "isValidTimeFormat t" by simp
  then obtain h m where "Sscanf t = (h, m, False)"
    by (rule valid_scan)
  with Cons show ?case
    by (simp add: parseTime_def)
qed

lemma sorted_insertBy:
  assumes "\<And>a b. lt a b \<longleftrightarrow> key a < (key b :: int)"
  shows "sorted (map key xs) \<Longrightarrow> sorted (map key (insertBy lt x xs))"
proof (induction xs)
  case Nil
  then show ?case by simp
next
  case (Cons y ys)
  show ?case
  proof (cases "lt y x")
    case True
    then have "key y < key x" using assms by simp
    moreover have "set (insertBy lt x ys) = insert x (set ys)"
      using mset_insertBy [of lt x ys] by (metis set_mset_add_mset_insert set_mset_mset)
    ultimately show ?thesis
      using Cons True by auto
  next
    case False
    then have "key x \<le> key y" using assms by (simp add: not_less)
    then show ?thesis
      using Cons.prems False by auto
  qed
qed

lemma sorted_sortSlice:
  assumes "\<And>a b. lt a b \<longleftrightarrow> key a < (key b :: int)"
  shows "sorted (map key (sortSlice lt xs))"
  by (induction xs) (simp_all add: sorted_insertBy [OF assms])

lemma triggerBefore_key:
  "triggerBefore a b \<longleftrightarrow> unixNano (TriggerTime a) < unixNano (TriggerTime b)"
  by (simp add: triggerBefore_def Before_def)

lemma trigger_chain:
  assumes "\<bar>ih\<bar> \<le> 2562047"
  shows "Add (Add (Date (civilDay date) (fst (parseTime s)) (snd (parseTime s)) (zoneOffset date))
                (negDuration (ih * 3600000000000)))
           (bs * 1000000000)
           = triggerInstant date s ih bs"
  by (simp add: interval_hours(2) [OF assms] triggerInstant_def Add_def Date_def targetSec_def
      split: prod.splits)

lemma daily_general:
  assumes "\<forall>t\<in>set ts. isValidTimeFormat t"
    and "\<bar>ih\<bar> \<le> 2562047" and "\<bar>bs\<bar> \<le> 9223372036"
  shows "CalculateDailyTriggers date ts ih bs =
           sortSlice triggerBefore (map (triggerFor date ih bs) ts)"
proof -
  have "(\<lambda>s. \<lparr>TargetTime = s,
                TriggerTime =
                  Add (Add (Date (civilDay date) (fst (parseTime s)) (snd (parseTime s))
                              (zoneOffset date))
                         (negDuration (ih * 3600000000000)))
                    (bs * 1000000000)\<rparr>) = triggerFor date ih bs"
    by (rule ext) (simp only: trigger_chain [OF assms(2)] triggerFor_def)
  then show ?thesis
    by (simp add: CalculateDailyTriggers_def interval_hours(1) [OF assms(2)]
        buffer_seconds [OF assms(3)] appendTriggers_valid [OF assms(1)])
qed

lemma daily_example:
  "CalculateDailyTriggers date [''09:00'', ''14:00'', ''19:00''] 5 60 =
     [\<lparr>TargetTime = ''09:00'', TriggerTime = Date (civilDay date) 4 1 (zoneOffset date)\<rparr>,
      \<lparr>TargetTime = ''14:00'', TriggerTime = Date (civilDay date) 9 1 (zoneOffset date)\<rparr>,
      \<lparr>TargetTime = ''19:00'', TriggerTime = Date (civilDay date) 14 1 (zoneOffset date)\<rparr>]"
proof -
  have v: "\<forall>t\<in>set [''09:00'', ''14:00'', ''19:00'']. isValidTimeFormat t"
    by code_simp
  have p: "targetSec ''09:00'' = 32400" "targetSec ''14:00'' = 50400"
    "targetSec ''19:00'' = 68400"
    by code_simp+
  have t: "triggerFor date 5 60 ''09:00'' =
        \<lparr>TargetTime = ''09:00'', TriggerTime = Date (civilDay date) 4 1 (zoneOffset date)\<rparr>"
      "triggerFor date 5 60 ''14:00'' =
        \<lparr>TargetTime = ''14:00'', TriggerTime = Date (civilDay date) 9 1 (zoneOffset date)\<rparr>"
      "triggerFor date 5 60 ''19:00'' =
        \<lparr>TargetTime = ''19:00'', TriggerTime = Date (civilDay date) 14 1 (zoneOffset date)\<rparr>"
    by (simp_all add: triggerFor_def triggerInstant_def p Date_def)
  show ?thesis
    unfolding daily_general [OF v, of 5 60 date, simplified]
    by (simp add: t triggerBefore_key Date_def)
qed

text \<open>
  Claim C5. For well-formed target times, and an interval and a buffer whose durations
  fit int64, \<open>CalculateDailyTriggers\<close> returns one trigger for each target time, whose
  instant is the civil day of \<open>date\<close> at the target time, minus the interval, plus the
  buffer, computed exactly, and the triggers are in ascending order of their instants.
  For an interval of 5 hours, the targets 09:00, 14:00, 19:00 and a buffer of 60 seconds
  they are 04:01, 09:01 and 14:01 of that day, in this order; for the target 00:30 the
  trigger is 19:31 of the day before.
\<close>

theorem daily_triggers:
  assumes "\<forall>t\<in>set targetTimes. isValidTimeFormat t"
    and "\<bar>intervalHours\<bar> \<le> 2562047" and "\<bar>bufferSeconds\<bar> \<le> 9223372036"
  shows "mset (CalculateDailyTriggers date targetTimes intervalHours bufferSeconds) =
           mset (map (triggerFor date intervalHours bufferSeconds) targetTimes)
       \<and> sorted (map (\<lambda>t. unixNano (TriggerTime t))
           (CalculateDailyTriggers date targetTimes intervalHours bufferSeconds))
       \<and> CalculateDailyTriggers date [''09:00'', ''14:00'', ''19:00''] 5 60 =
           [\<lparr>TargetTime = ''09:00'', TriggerTime = Date (civilDay date) 4 1 (zoneOffset date)\<rparr>,
            \<lparr>TargetTime = ''14:00'', TriggerTime = Date (civilDay date) 9 1 (zoneOffset date)\<rparr>,
            \<lparr>TargetTime = ''19:00'', TriggerTime = Date (civilDay date) 14 1 (zoneOffset date)\<rparr>]
       \<and> CalculateDailyTriggers (instant 2025 2 19 0 0 0 0) [''00:30''] 5 60 =
           [\<lparr>TargetTime = ''00:30'', TriggerTime = instant 2025 2 18 19 31 0 0\<rparr>]"
proof -
  have roll: "CalculateDailyTriggers (instant 2025 2 19 0 0 0 0) [''00:30''] 5 60 =
           [\<lparr>TargetTime = ''00:30'', TriggerTime = instant 2025 2 18 19 31 0 0\<rparr>]"
    by code_simp
  show ?thesis
    unfolding daily_general [OF assms]
    using sorted_sortSlice [of triggerBefore "\<lambda>t. unixNano (TriggerTime t)", OF triggerBefore_key]
      daily_example [of date] roll
    by (simp add: mset_sortSlice)
qed

text \<open>The theorem at the targets 19:00 and 09:00 on 2025-02-19 in UTC.\<close>

theorem daily_triggers_witness:
  "isValidTimeFormat ''19:00'' \<and> isValidTimeFormat ''09:00''
   \<and> \<bar>5::int\<bar> \<le> 2562047 \<and> \<bar>60::int\<bar> \<le> 9223372036
   \<and> mset (CalculateDailyTriggers (instant 2025 2 19 0 0 0 0) [''19:00'', ''09:00''] 5 60) =
        mset [triggerFor (instant 2025 2 19 0 0 0 0) 5 60 ''19:00'',
              triggerFor (instant 2025 2 19 0 0 0 0) 5 60 ''09:00'']
   \<and> sorted (map (\<lambda>t. unixNano (TriggerTime t))
        (CalculateDailyTriggers (instant 2025 2 19 0 0 0 0) [''19:00'', ''09:00''] 5 60))"
proof -
  have h: "isValidTimeFormat ''19:00''" "isValidTimeFormat ''09:00''"
    by code_simp+
  then have h1: "\<forall>t\<in>set [''19:00'', ''09:00'']. isValidTimeFormat t"
    by simp
  have h2: "\<bar>5::int\<bar> \<le> 2562047" and h3: "\<bar>60::int\<bar> \<le> 9223372036"
    by simp_all
  from daily_triggers [OF h1 h2 h3, of "instant 2025 2 19 0 0 0 0"] h h2 h3
  show ?thesis by simp
qed

section \<open>The payload of the conflict error\<close>

text \<open>
  Claim C6, at an input where the code departs from it. For the target times 20:00,
  14:00, 18:00 and an interval of 5 hours the conflicting pair is 18:00 and 14:00 (the
  trigger of 18:00, 13:00, lies in the window from 09:00 to 14:00 that the trigger of
  14:00 opens). The loop finds it at the indices 1 and 0 of the sorted times and reads
  the names at these indices from the unsorted list: the error names 14:00 and 20:00,
  which do not conflict, and gives 13:00 as the trigger of 14:00 and 09:00 as the trigger
  of 20:00.
\<close>

theorem conflict_error_misnames_pair:
  "validateTargetTimesConflict [''20:00'', ''14:00'', ''18:00''] 5 =
     Some \<lparr>firstTime = ''14:00'', secondTime = ''20:00'',
            firstTriggerFor = ''14:00'', firstTrigger = ''13:00'',
            secondTriggerFor = ''20:00'', secondTrigger = ''09:00'',
            windowStart = ''09:00'', windowEnd = ''14:00'', minHours = 5\<rparr>
   \<and> ValidateScheduler \<lparr>IntervalHours = 5, TargetTimes = [''20:00'', ''14:00'', ''18:00''],
        SafetyBufferSeconds = 60\<rparr> =
     Some (Conflicting \<lparr>firstTime = ''14:00'', secondTime = ''20:00'',
            firstTriggerFor = ''14:00'', firstTrigger = ''13:00'',
            secondTriggerFor = ''20:00'', secondTrigger = ''09:00'',
            windowStart = ''09:00'', windowEnd = ''14:00'', minHours = 5\<rparr>)
   \<and> isValidTimeFormat ''20:00'' \<and> isValidTimeFormat ''14:00'' \<and> isValidTimeFormat ''18:00''
   \<and> triggerSec ''14:00'' 5 = 9 * 3600
   \<and> triggerSec ''18:00'' 5 = 13 * 3600
   \<and> triggerSec ''20:00'' 5 = 15 * 3600
   \<and> inWindow (triggerSec ''18:00'' 5) (triggerSec ''14:00'' 5) (quotaEndSec ''14:00'' 5)
   \<and> \<not> inWindow (triggerSec ''14:00'' 5) (triggerSec ''20:00'' 5) (quotaEndSec ''20:00'' 5)
   \<and> \<not> inWindow (triggerSec ''20:00'' 5) (triggerSec ''14:00'' 5) (quotaEndSec ''14:00'' 5)"
  by code_simp

section \<open>The next trigger\<close>

lemma div_between:
  fixes n k D :: int
  assumes "k * D \<le> n" "n < (k + 1) * D"
  shows "n div D = k"
proof -
  have "n = D * k + (n - k * D)" by (simp add: algebra_simps)
  moreover have "0 \<le> n - k * D" using assms(1) by simp
  moreover have "n - k * D < D" using assms(2) by (simp add: algebra_simps)
  ultimately show ?thesis by (rule int_div_pos_eq)
qed

lemma Truncate_day:
  "Truncate now (24 * Hour) =
     now\<lparr>unixNano := (unixNano now div 86400000000000) * 86400000000000\<rparr>"
proof -
  have z: "unixToInternal * 1000000000 = 86400000000000 * 719162"
    by (simp add: unixToInternal_def)
  have "(unixNano now + unixToInternal * 1000000000) mod 86400000000000
      = unixNano now mod 86400000000000"
    unfolding z by (rule mod_mult_self2)
  moreover have "unixNano now - unixNano now mod 86400000000000 =
      (unixNano now div 86400000000000) * 86400000000000"
    by (simp add: minus_mod_eq_div_mult)
  ultimately show ?thesis
    by (simp add: Truncate_def Hour_def Add_def)
qed

lemma civilDay_midnight:
  assumes "0 \<le> off" "off < 86400"
  shows "civilDay \<lparr>unixNano = k * 86400000000000, zoneOffset = off\<rparr> = k"
proof -
  have "k * 86400000000000 = (k * 86400) * 1000000000" by simp
  then have "(k * 86400000000000) div 1000000000 = k * 86400"
    by (simp only: nonzero_mult_div_cancel_right)
  then have "localSec \<lparr>unixNano = k * 86400000000000, zoneOffset = off\<rparr> = k * 86400 + off"
    by (simp add: localSec_def)
  moreover have "(k * 86400 + off) div 86400 = k"
    using assms by (intro div_between) simp_all
  ultimately show ?thesis by (simp add: civilDay_def)
qed

lemma NextTrigger_example:
  assumes off: "0 \<le> zoneOffset now" "zoneOffset now < 86400"
  defines "k \<equiv> unixNano now div 86400000000000"
  defines "z \<equiv> zoneOffset now"
  shows "fst (NextTrigger now [''09:00'', ''14:00'', ''19:00''] 5 60) =
     (if unixNano (Date k 4 1 z) > unixNano now
      then \<lparr>TargetTime = ''09:00'', TriggerTime = Date k 4 1 z\<rparr>
      else if unixNano (Date k 9 1 z) > unixNano now
      then \<lparr>TargetTime = ''14:00'', TriggerTime = Date k 9 1 z\<rparr>
      else if unixNano (Date k 14 1 z) > unixNano now
      then \<lparr>TargetTime = ''19:00'', TriggerTime = Date k 14 1 z\<rparr>
      else \<lparr>TargetTime = ''09:00'', TriggerTime = Date (k + 1) 4 1 z\<rparr>)"
proof -
  let ?today = "now\<lparr>unixNano := k * 86400000000000\<rparr>"
  let ?tomorrow = "Add ?today (24 * Hour)"
  have today: "Truncate now (24 * Hour) = ?today"
    by (simp add: Truncate_day k_def)
  have d1: "civilDay ?today = k"
    using civilDay_midnight [OF off, of k] by (simp add: civilDay_def localSec_def)
  have "unixNano ?tomorrow = (k + 1) * 86400000000000"
    by (simp add: Add_def Hour_def algebra_simps)
  then have d2: "civilDay ?tomorrow = k + 1"
    using civilDay_midnight [OF off, of "k + 1"] by (simp add: civilDay_def localSec_def Add_def)
  have z1: "zoneOffset ?today = z" "zoneOffset ?tomorrow = z"
    by (simp_all add: z_def Add_def)
  show ?thesis
    unfolding NextTrigger_def Let_def today daily_example d1 d2 z1
    by (simp add: After_def)
qed


lemma days_2025: "daysFromCivil 2025 2 19 = 20138" "daysFromCivil 2025 2 20 = 20139"
  "daysFromCivil 2025 2 18 = 20137"
  by (simp_all add: daysFromCivil_def)

lemma NextTrigger_evening:
  assumes off: "0 \<le> zoneOffset now" "zoneOffset now \<le> 50400"
    and lo: "\<not> Before now (instant 2025 2 19 14 1 0 (zoneOffset now))"
    and hi: "Before now (instant 2025 2 20 4 1 0 (zoneOffset now))"
  shows "fst (NextTrigger now [''09:00'', ''14:00'', ''19:00''] 5 60) =
     \<lparr>TargetTime = ''09:00'', TriggerTime = instant 2025 2 20 4 1 0 (zoneOffset now)\<rparr>"
proof -
  define n where "n = unixNano now"
  define z where "z = zoneOffset now"
  have lo': "(1739973660 - z) * 1000000000 \<le> n"
    using lo by (simp add: Before_def instant_def days_2025 n_def z_def)
  have hi': "n < (1740024060 - z) * 1000000000"
    using hi by (simp add: Before_def instant_def days_2025 n_def z_def)
  have z: "0 \<le> z" "z \<le> 50400" using off by (simp_all add: z_def)
  have off': "0 \<le> zoneOffset now" "zoneOffset now < 86400" using off by simp_all
  have res: "Date 20139 4 1 z = instant 2025 2 20 4 1 0 z"
    by (simp add: Date_def instant_def days_2025)
  show ?thesis
  proof (cases "n < 20139 * 86400000000000")
    case True
    have "n div 86400000000000 = 20138"
      using lo' z True by (intro div_between) simp_all
    then show ?thesis
      using NextTrigger_example [OF off'] lo' z res
      by (simp add: Date_def n_def [symmetric] z_def [symmetric])
  next
    case False
    have "n div 86400000000000 = 20139"
      using hi' z False by (intro div_between) simp_all
    then show ?thesis
      using NextTrigger_example [OF off'] hi' z res
      by (simp add: Date_def n_def [symmetric] z_def [symmetric])
  qed
qed

text \<open>
  Claim C4, as amended. In a zone at a fixed offset from UTC to UTC+14, with the targets
  09:00, 14:00, 19:00, an interval of 5 hours and a buffer of 60 seconds, \<open>NextTrigger\<close>
  at 2025-02-19 16:00:00 returns the trigger that serves 09:00, at 2025-02-20 04:01:00;
  and at every instant strictly after 2025-02-19 19:01:00 and before 2025-02-20 04:01:00
  it returns that same trigger.
\<close>

theorem next_trigger_example:
  assumes "0 \<le> off" and "off \<le> 50400"
  shows "fst (NextTrigger (instant 2025 2 19 16 0 0 off) [''09:00'', ''14:00'', ''19:00''] 5 60) =
           \<lparr>TargetTime = ''09:00'', TriggerTime = instant 2025 2 20 4 1 0 off\<rparr>
       \<and> (\<forall>now. zoneOffset now = off \<and> After now (instant 2025 2 19 19 1 0 off)
              \<and> Before now (instant 2025 2 20 4 1 0 off) \<longrightarrow>
            fst (NextTrigger now [''09:00'', ''14:00'', ''19:00''] 5 60) =
              \<lparr>TargetTime = ''09:00'', TriggerTime = instant 2025 2 20 4 1 0 off\<rparr>)"
proof -
  have a: "fst (NextTrigger (instant 2025 2 19 16 0 0 off) [''09:00'', ''14:00'', ''19:00''] 5 60) =
           \<lparr>TargetTime = ''09:00'', TriggerTime = instant 2025 2 20 4 1 0 off\<rparr>"
    using NextTrigger_evening [of "instant 2025 2 19 16 0 0 off"] assms
    by (simp add: instant_def Before_def days_2025)
  have b: "fst (NextTrigger now [''09:00'', ''14:00'', ''19:00''] 5 60) =
              \<lparr>TargetTime = ''09:00'', TriggerTime = instant 2025 2 20 4 1 0 off\<rparr>"
    if "zoneOffset now = off" "After now (instant 2025 2 19 19 1 0 off)"
      "Before now (instant 2025 2 20 4 1 0 off)" for now
  proof -
    have "\<not> Before now (instant 2025 2 19 14 1 0 (zoneOffset now))"
      using that(1,2) by (simp add: instant_def Before_def After_def days_2025)
    then show ?thesis
      using NextTrigger_evening [of now] assms that by simp
  qed
  show ?thesis using a b by blast
qed

text \<open>The theorem in UTC, the second call one second after 19:01:00.\<close>

theorem next_trigger_example_witness:
  "(0::int) \<le> 0 \<and> (0::int) \<le> 50400
   \<and> fst (NextTrigger (instant 2025 2 19 16 0 0 0) [''09:00'', ''14:00'', ''19:00''] 5 60) =
        \<lparr>TargetTime = ''09:00'', TriggerTime = instant 2025 2 20 4 1 0 0\<rparr>
   \<and> zoneOffset (instant 2025 2 19 19 1 1 0) = 0
   \<and> After (instant 2025 2 19 19 1 1 0) (instant 2025 2 19 19 1 0 0)
   \<and> Before (instant 2025 2 19 19 1 1 0) (instant 2025 2 20 4 1 0 0)
   \<and> fst (NextTrigger (instant 2025 2 19 19 1 1 0) [''09:00'', ''14:00'', ''19:00''] 5 60) =
        \<lparr>TargetTime = ''09:00'', TriggerTime = instant 2025 2 20 4 1 0 0\<rparr>"
proof -
  have h: "(0::int) \<le> 0" "(0::int) \<le> 50400" by simp_all
  have g: "zoneOffset (instant 2025 2 19 19 1 1 0) = 0"
    "After (instant 2025 2 19 19 1 1 0) (instant 2025 2 19 19 1 0 0)"
    "Before (instant 2025 2 19 19 1 1 0) (instant 2025 2 20 4 1 0 0)"
    by code_simp+
  from next_trigger_example [OF h] g h
  show ?thesis by blast
qed

text \<open>
  Claim C4 as stated fails: at 2025-02-19 16:00:00 the three triggers of the day, 04:01,
  09:01 and 14:01, have passed, and the result is not the target 19:00 at 19:01:00 but
  the target 09:00 at 04:01:00 of the next day.
\<close>

theorem next_trigger_example_counterexample:
  "fst (NextTrigger (instant 2025 2 19 16 0 0 0) [''09:00'', ''14:00'', ''19:00''] 5 60) \<noteq>
     \<lparr>TargetTime = ''19:00'', TriggerTime = instant 2025 2 19 19 1 0 0\<rparr>
   \<and> fst (NextTrigger (instant 2025 2 19 16 0 0 0) [''09:00'', ''14:00'', ''19:00''] 5 60) =
     \<lparr>TargetTime = ''09:00'', TriggerTime = instant 2025 2 20 4 1 0 0\<rparr>
   \<and> CalculateDailyTriggers (instant 2025 2 19 0 0 0 0) [''09:00'', ''14:00'', ''19:00''] 5 60 =
     [\<lparr>TargetTime = ''09:00'', TriggerTime = instant 2025 2 19 4 1 0 0\<rparr>,
      \<lparr>TargetTime = ''14:00'', TriggerTime = instant 2025 2 19 9 1 0 0\<rparr>,
      \<lparr>TargetTime = ''19:00'', TriggerTime = instant 2025 2 19 14 1 0 0\<rparr>]"
  by code_simp

text \<open>
  Claim C9, at an input where the code departs from it. The single target 00:30 with an
  interval of 5 hours and a buffer of 60 seconds is well formed and free of conflicts.
  At 2025-02-19 20:00:00 UTC the trigger of today lies at 19:31 of the day before, so the
  first trigger of tomorrow is returned without comparing it with the clock: it is 19:31
  of today, which is not after now.
\<close>

theorem next_trigger_not_after_now:
  "isValidTimeFormat ''00:30''
   \<and> validateTargetTimesConflict [''00:30''] 5 = None
   \<and> ValidateScheduler \<lparr>IntervalHours = 5, TargetTimes = [''00:30''],
        SafetyBufferSeconds = 60\<rparr> = None
   \<and> fst (NextTrigger (instant 2025 2 19 20 0 0 0) [''00:30''] 5 60) =
        \<lparr>TargetTime = ''00:30'', TriggerTime = instant 2025 2 19 19 31 0 0\<rparr>
   \<and> \<not> After (instant 2025 2 19 19 31 0 0) (instant 2025 2 19 20 0 0 0)"
  by code_simp

text \<open>
  In UTC the day that \<open>Truncate\<close> gives is the civil day of now, and the search is: the
  earliest trigger of that day strictly after now, else the earliest trigger of the
  next day.
\<close>

lemma appendTriggers_same_day:
  assumes "civilDay d = civilDay d'" "zoneOffset d = zoneOffset d'"
  shows "appendTriggers d iv bf ts = appendTriggers d' iv bf ts"
  using assms by (induction ts) (simp_all split: prod.splits)

lemma CalculateDailyTriggers_same_day:
  assumes "civilDay d = civilDay d'" "zoneOffset d = zoneOffset d'"
  shows "CalculateDailyTriggers d ts ih bs = CalculateDailyTriggers d' ts ih bs"
  by (simp add: CalculateDailyTriggers_def appendTriggers_same_day [OF assms])

lemma civilDay_utc:
  assumes "zoneOffset now = 0"
  shows "civilDay now = unixNano now div 86400000000000"
proof -
  have "unixNano now div (1000000000 * 86400) = unixNano now div 1000000000 div 86400"
    by (rule zdiv_zmult2_eq) simp
  then show ?thesis using assms by (simp add: civilDay_def localSec_def)
qed

lemma Truncate_utc:
  assumes "zoneOffset now = 0"
  shows "civilDay (Truncate now (24 * Hour)) = civilDay now"
    and "zoneOffset (Truncate now (24 * Hour)) = zoneOffset now"
    and "civilDay (Add (Truncate now (24 * Hour)) (24 * Hour)) = civilDay (Add now (24 * Hour))"
    and "zoneOffset (Add (Truncate now (24 * Hour)) (24 * Hour)) = zoneOffset (Add now (24 * Hour))"
proof -
  let ?k = "unixNano now div 86400000000000"
  have t: "Truncate now (24 * Hour) = \<lparr>unixNano = ?k * 86400000000000, zoneOffset = 0\<rparr>"
    using assms by (simp add: Truncate_day)
  show "civilDay (Truncate now (24 * Hour)) = civilDay now"
    unfolding t civilDay_utc [OF assms] by (rule civilDay_midnight) simp_all
  show "zoneOffset (Truncate now (24 * Hour)) = zoneOffset now"
    using assms by (simp add: t)
  have "Add (Truncate now (24 * Hour)) (24 * Hour) =
      \<lparr>unixNano = (?k + 1) * 86400000000000, zoneOffset = 0\<rparr>"
    unfolding t by (simp add: Add_def Hour_def algebra_simps)
  then have "civilDay (Add (Truncate now (24 * Hour)) (24 * Hour)) = ?k + 1"
    using civilDay_midnight [of 0 "?k + 1"] by simp
  moreover have "civilDay (Add now (24 * Hour)) = ?k + 1"
  proof -
    have "zoneOffset (Add now (24 * Hour)) = 0" using assms by (simp add: Add_def)
    then have "civilDay (Add now (24 * Hour)) = (unixNano now + 86400000000000) div 86400000000000"
      by (simp add: civilDay_utc Add_def Hour_def)
    also have "\<dots> = ?k + 1"
      using div_add_self2 [of 86400000000000 "unixNano now"] by simp
    finally show ?thesis .
  qed
  ultimately show "civilDay (Add (Truncate now (24 * Hour)) (24 * Hour)) = civilDay (Add now (24 * Hour))"
    by simp
  show "zoneOffset (Add (Truncate now (24 * Hour)) (24 * Hour)) = zoneOffset (Add now (24 * Hour))"
    unfolding t using assms by (simp add: Add_def)
qed

lemma find_earliest:
  assumes "sorted (map key xs)" "find P xs = Some r"
  shows "P r \<and> r \<in> set xs \<and> (\<forall>t\<in>set xs. P t \<longrightarrow> key r \<le> (key t :: int))"
  using assms
proof (induction xs)
  case Nil
  then show ?case by simp
next
  case (Cons x xs)
  show ?case
  proof (cases "P x")
    case True
    then show ?thesis using Cons.prems by auto
  next
    case False
    then show ?thesis using Cons by auto
  qed
qed

lemma hd_earliest:
  assumes "sorted (map key (x # xs))"
  shows "\<forall>t\<in>set (x # xs). key x \<le> (key t :: int)"
  using assms by auto

lemma NextTrigger_utc:
  assumes "zoneOffset now = 0"
  shows "fst (NextTrigger now ts ih bs) =
     (case find (\<lambda>t. After (TriggerTime t) now) (CalculateDailyTriggers now ts ih bs) of
        Some t \<Rightarrow> t
      | None \<Rightarrow>
          (case CalculateDailyTriggers (Add now (24 * Hour)) ts ih bs of
             t # _ \<Rightarrow> t
           | [] \<Rightarrow> \<lparr>TargetTime = [], TriggerTime = Add now (24 * Hour)\<rparr>))"
proof -
  have a: "CalculateDailyTriggers (Truncate now (24 * Hour)) ts ih bs =
      CalculateDailyTriggers now ts ih bs"
    by (rule CalculateDailyTriggers_same_day) (rule Truncate_utc [OF assms])+
  have b: "CalculateDailyTriggers (Add (Truncate now (24 * Hour)) (24 * Hour)) ts ih bs =
      CalculateDailyTriggers (Add now (24 * Hour)) ts ih bs"
    by (rule CalculateDailyTriggers_same_day) (rule Truncate_utc [OF assms])+
  show ?thesis
    by (simp add: NextTrigger_def Let_def a b split: option.splits list.splits)
qed


lemma NextTrigger_rule_utc:
  assumes "zoneOffset now = 0"
  shows "(\<forall>r. find (\<lambda>t. After (TriggerTime t) now) (CalculateDailyTriggers now ts ih bs) = Some r \<longrightarrow>
            fst (NextTrigger now ts ih bs) = r
            \<and> r \<in> set (CalculateDailyTriggers now ts ih bs)
            \<and> After (TriggerTime r) now
            \<and> (\<forall>t\<in>set (CalculateDailyTriggers now ts ih bs). After (TriggerTime t) now \<longrightarrow>
                  unixNano (TriggerTime r) \<le> unixNano (TriggerTime t)))
       \<and> (\<forall>x xs. (\<forall>t\<in>set (CalculateDailyTriggers now ts ih bs). \<not> After (TriggerTime t) now)
              \<and> CalculateDailyTriggers (Add now (24 * Hour)) ts ih bs = x # xs \<longrightarrow>
            fst (NextTrigger now ts ih bs) = x
            \<and> (\<forall>t\<in>set (x # xs). unixNano (TriggerTime x) \<le> unixNano (TriggerTime t)))"
proof -
  let ?key = "\<lambda>t. unixNano (TriggerTime t)"
  have s: "sorted (map ?key (CalculateDailyTriggers d ts ih bs))" for d
    unfolding CalculateDailyTriggers_def Let_def
    by (rule sorted_sortSlice) (rule triggerBefore_key)
  have a: "fst (NextTrigger now ts ih bs) = r
            \<and> r \<in> set (CalculateDailyTriggers now ts ih bs)
            \<and> After (TriggerTime r) now
            \<and> (\<forall>t\<in>set (CalculateDailyTriggers now ts ih bs). After (TriggerTime t) now \<longrightarrow>
                  ?key r \<le> ?key t)"
    if f: "find (\<lambda>t. After (TriggerTime t) now) (CalculateDailyTriggers now ts ih bs) = Some r" for r
    using find_earliest [of ?key, OF s f] f by (simp add: NextTrigger_utc [OF assms])
  have b: "fst (NextTrigger now ts ih bs) = x
            \<and> (\<forall>t\<in>set (x # xs). ?key x \<le> ?key t)"
    if n: "\<forall>t\<in>set (CalculateDailyTriggers now ts ih bs). \<not> After (TriggerTime t) now"
      and c: "CalculateDailyTriggers (Add now (24 * Hour)) ts ih bs = x # xs" for x xs
  proof -
    from n have "find (\<lambda>t. After (TriggerTime t) now) (CalculateDailyTriggers now ts ih bs) = None"
      by (simp add: find_None_iff)
    then have "fst (NextTrigger now ts ih bs) = x"
      by (simp add: NextTrigger_utc [OF assms] c)
    moreover have "\<forall>t\<in>set (x # xs). ?key x \<le> ?key t"
      using hd_earliest [of ?key x xs] s [of "Add now (24 * Hour)"] c by simp
    ultimately show ?thesis by simp
  qed
  show ?thesis using a b by blast
qed

text \<open>
  Claim C2, at inputs where the code departs from it. At 05:00 on 2025-02-19 in a zone
  eight hours east of UTC, \<open>Truncate\<close> gives midnight UTC of 2025-02-18, whose civil day
  in the zone is the 18th, not the day of now. The triggers of the 18th have passed, and
  the first trigger of the 19th, 04:01, is returned although it is not after now; of the
  triggers of the local day of now the earliest one after now is 09:01. In UTC, with the
  single target 00:30, the first trigger of tomorrow is 19:31 of today, and at 19:31:00
  exactly it is returned although its instant equals now.
\<close>

theorem today_is_utc_day:
  "ValidateScheduler \<lparr>IntervalHours = 5, TargetTimes = [''09:00'', ''14:00'', ''19:00''],
        SafetyBufferSeconds = 60\<rparr> = None
   \<and> NextTrigger (instant 2025 2 19 5 0 0 28800) [''09:00'', ''14:00'', ''19:00''] 5 60 =
     (\<lparr>TargetTime = ''09:00'', TriggerTime = instant 2025 2 19 4 1 0 28800\<rparr>,
      instant 2025 2 19 8 0 0 28800)
   \<and> \<not> After (instant 2025 2 19 4 1 0 28800) (instant 2025 2 19 5 0 0 28800)
   \<and> Truncate (instant 2025 2 19 5 0 0 28800) (24 * Hour) = instant 2025 2 18 8 0 0 28800
   \<and> civilDay (Truncate (instant 2025 2 19 5 0 0 28800) (24 * Hour)) = daysFromCivil 2025 2 18
   \<and> civilDay (instant 2025 2 19 5 0 0 28800) = daysFromCivil 2025 2 19
   \<and> CalculateDailyTriggers (instant 2025 2 19 0 0 0 28800) [''09:00'', ''14:00'', ''19:00''] 5 60 =
        [\<lparr>TargetTime = ''09:00'', TriggerTime = instant 2025 2 19 4 1 0 28800\<rparr>,
         \<lparr>TargetTime = ''14:00'', TriggerTime = instant 2025 2 19 9 1 0 28800\<rparr>,
         \<lparr>TargetTime = ''19:00'', TriggerTime = instant 2025 2 19 14 1 0 28800\<rparr>]
   \<and> After (instant 2025 2 19 9 1 0 28800) (instant 2025 2 19 5 0 0 28800)
   \<and> fst (NextTrigger (instant 2025 2 19 19 31 0 0) [''00:30''] 5 60) =
        \<lparr>TargetTime = ''00:30'', TriggerTime = instant 2025 2 19 19 31 0 0\<rparr>"
  by code_simp

section \<open>The scheduling loop\<close>

lemma mainLoop_append:
  "mainLoop cfg nt (xs @ ys) =
     (case snd (mainLoop cfg nt xs) of
        Running nt' \<Rightarrow> (fst (mainLoop cfg nt xs) @ fst (mainLoop cfg nt' ys), snd (mainLoop cfg nt' ys))
      | Returned_ctxErr \<Rightarrow> mainLoop cfg nt xs)"
proof (induction xs arbitrary: nt)
  case Nil
  then show ?case by simp
next
  case (Cons x xs)
  show ?case
    by (simp add: Cons.IH Let_def split: Outcome.splits)
qed

lemma Start_append:
  "Start cfg now (xs @ ys) =
     (case snd (Start cfg now xs) of
        Running nt' \<Rightarrow> (fst (Start cfg now xs) @ fst (mainLoop cfg nt' ys), snd (mainLoop cfg nt' ys))
      | Returned_ctxErr \<Rightarrow> Start cfg now xs)"
  by (simp add: Start_def Let_def mainLoop_append split: Outcome.splits)

lemma mainLoop_running:
  assumes "\<forall>it\<in>set its. \<not> doneAtTop it \<and> \<not> doneInWait it"
  shows "\<exists>nt'. snd (mainLoop cfg nt its) = Running nt'"
  using assms
proof (induction its arbitrary: nt)
  case Nil
  then show ?case by simp
next
  case (Cons it its)
  then show ?case by (simp add: Let_def)
qed

lemma mainLoop_calls:
  assumes "\<forall>it\<in>set its. \<not> doneAtTop it \<and> \<not> doneInWait it"
  shows "length (filter (\<lambda>e. e = CallTrigger) (fst (mainLoop cfg nt its))) = length its"
  using assms
proof (induction its arbitrary: nt)
  case Nil
  then show ?case by simp
next
  case (Cons it its)
  then show ?case by (simp add: Let_def split: option.splits)
qed

text \<open>
  Claim C7. Let the loop be running after the iterations \<open>its1\<close>, holding the trigger
  \<open>nt1\<close>, and let the next iteration see no cancellation while \<open>platform.Trigger\<close>
  returns the error \<open>err\<close>. Then the loop does not return in this iteration: it logs the
  error, computes the next trigger from the clock read after the call, and goes on with
  the remaining iterations from there. In every run where no cancellation is seen the
  loop is still running at the end, whatever the calls returned, after one call per
  iteration.
\<close>

theorem failed_trigger_continues:
  assumes "snd (Start cfg now its1) = Running nt1"
    and "\<not> doneAtTop it"
    and "\<not> (After (TriggerTime nt1) (nowAtTop it) \<and> doneInWait it)"
    and "triggerResult it = Some err"
  shows "Start cfg now (its1 @ it # its2) =
           (fst (Start cfg now its1)
              @ (if After (TriggerTime nt1) (nowAtTop it) then [LogWaiting] else [])
              @ [LogTriggering (TargetTime nt1), CallTrigger, LogError err,
                 LogNext (Scheduler_NextTrigger cfg (nowAfter it))]
              @ fst (mainLoop cfg (Scheduler_NextTrigger cfg (nowAfter it)) its2),
            snd (mainLoop cfg (Scheduler_NextTrigger cfg (nowAfter it)) its2))
       \<and> snd (Start cfg now (its1 @ [it])) = Running (Scheduler_NextTrigger cfg (nowAfter it))
       \<and> ((\<forall>x\<in>set its. \<not> doneAtTop x \<and> \<not> doneInWait x) \<longrightarrow>
            (\<exists>nt'. snd (Start cfg now its) = Running nt')
            \<and> length (filter (\<lambda>e. e = CallTrigger) (fst (Start cfg now its))) = length its)"
proof -
  have a: "Start cfg now (its1 @ it # its2) =
           (fst (Start cfg now its1)
              @ (if After (TriggerTime nt1) (nowAtTop it) then [LogWaiting] else [])
              @ [LogTriggering (TargetTime nt1), CallTrigger, LogError err,
                 LogNext (Scheduler_NextTrigger cfg (nowAfter it))]
              @ fst (mainLoop cfg (Scheduler_NextTrigger cfg (nowAfter it)) its2),
            snd (mainLoop cfg (Scheduler_NextTrigger cfg (nowAfter it)) its2))" for its2
    using assms
    by (auto simp: Start_append [of cfg now its1] Let_def Scheduler_NextTrigger_def)
  have b: "snd (Start cfg now (its1 @ [it])) = Running (Scheduler_NextTrigger cfg (nowAfter it))"
    using a [of "[]"] by simp
  have c: "(\<exists>nt'. snd (Start cfg now its) = Running nt')
      \<and> length (filter (\<lambda>e. e = CallTrigger) (fst (Start cfg now its))) = length its"
    if "\<forall>x\<in>set its. \<not> doneAtTop x \<and> \<not> doneInWait x"
    using mainLoop_running [OF that] mainLoop_calls [OF that]
    by (simp add: Start_def Let_def)
  show ?thesis using a b c by blast
qed

text \<open>The theorem at a first iteration whose call fails with a timeout.\<close>

theorem failed_trigger_continues_witness:
  "snd (Start \<lparr>IntervalHours = 5, TargetTimes = [''09:00'', ''14:00'', ''19:00''],
               SafetyBufferSeconds = 60\<rparr> (instant 2025 2 19 16 0 0 0) []) =
     Running \<lparr>TargetTime = ''09:00'', TriggerTime = instant 2025 2 20 4 1 0 0\<rparr>
   \<and> \<not> doneAtTop \<lparr>doneAtTop = False, nowAtTop = instant 2025 2 19 16 0 1 0, doneInWait = False,
          triggerResult = Some ''timeout'', nowAfter = instant 2025 2 20 4 1 30 0\<rparr>
   \<and> triggerResult \<lparr>doneAtTop = False, nowAtTop = instant 2025 2 19 16 0 1 0, doneInWait = False,
          triggerResult = Some ''timeout'', nowAfter = instant 2025 2 20 4 1 30 0\<rparr> = Some ''timeout''
   \<and> snd (Start \<lparr>IntervalHours = 5, TargetTimes = [''09:00'', ''14:00'', ''19:00''],
               SafetyBufferSeconds = 60\<rparr> (instant 2025 2 19 16 0 0 0)
             [\<lparr>doneAtTop = False, nowAtTop = instant 2025 2 19 16 0 1 0, doneInWait = False,
               triggerResult = Some ''timeout'', nowAfter = instant 2025 2 20 4 1 30 0\<rparr>]) =
     Running \<lparr>TargetTime = ''14:00'', TriggerTime = instant 2025 2 20 9 1 0 0\<rparr>"
proof -
  let ?cfg = "\<lparr>IntervalHours = 5, TargetTimes = [''09:00'', ''14:00'', ''19:00''],
               SafetyBufferSeconds = 60\<rparr>"
  let ?it = "\<lparr>doneAtTop = False, nowAtTop = instant 2025 2 19 16 0 1 0, doneInWait = False,
          triggerResult = Some ''timeout'', nowAfter = instant 2025 2 20 4 1 30 0\<rparr>"
  let ?nt = "\<lparr>TargetTime = ''09:00'', TriggerTime = instant 2025 2 20 4 1 0 0\<rparr>"
  have h1: "snd (Start ?cfg (instant 2025 2 19 16 0 0 0) []) = Running ?nt"
    by code_simp
  have h2: "\<not> doneAtTop ?it" by simp
  have h3: "\<not> (After (TriggerTime ?nt) (nowAtTop ?it) \<and> doneInWait ?it)" by simp
  have h4: "triggerResult ?it = Some ''timeout''" by simp
  have n: "Scheduler_NextTrigger ?cfg (nowAfter ?it) =
      \<lparr>TargetTime = ''14:00'', TriggerTime = instant 2025 2 20 9 1 0 0\<rparr>"
    by code_simp
  from failed_trigger_continues [OF h1 h2 h3 h4] h1 h2 h4 n
  show ?thesis by simp
qed

text \<open>
  Claim C8. Let the loop be running after the iterations \<open>its1\<close>, holding the trigger
  \<open>nt1\<close>, whose instant is after the clock reading of the next iteration, and let the
  waiting \<^verbatim>\<open>select\<close> of that iteration take the arm of the cancelled context. Then
  \<open>Start\<close> returns the context's error at once: after the log line of the wait nothing
  follows, and \<open>platform.Trigger\<close> is called no more often than before that iteration.
\<close>

theorem cancelled_wait_returns:
  assumes "snd (Start cfg now its1) = Running nt1"
    and "\<not> doneAtTop it"
    and "After (TriggerTime nt1) (nowAtTop it)"
    and "doneInWait it"
  shows "Start cfg now (its1 @ it # its2) = (fst (Start cfg now its1) @ [LogWaiting], Returned_ctxErr)
       \<and> length (filter (\<lambda>e. e = CallTrigger) (fst (Start cfg now (its1 @ it # its2)))) =
           length (filter (\<lambda>e. e = CallTrigger) (fst (Start cfg now its1)))"
  using assms
  by (auto simp: Start_append [of cfg now its1] Let_def)

text \<open>The theorem at a first iteration cancelled while waiting for 04:01 of the next day.\<close>

theorem cancelled_wait_returns_witness:
  "snd (Start \<lparr>IntervalHours = 5, TargetTimes = [''09:00'', ''14:00'', ''19:00''],
               SafetyBufferSeconds = 60\<rparr> (instant 2025 2 19 16 0 0 0) []) =
     Running \<lparr>TargetTime = ''09:00'', TriggerTime = instant 2025 2 20 4 1 0 0\<rparr>
   \<and> After (instant 2025 2 20 4 1 0 0) (instant 2025 2 19 16 0 1 0)
   \<and> Start \<lparr>IntervalHours = 5, TargetTimes = [''09:00'', ''14:00'', ''19:00''],
               SafetyBufferSeconds = 60\<rparr> (instant 2025 2 19 16 0 0 0)
        [\<lparr>doneAtTop = False, nowAtTop = instant 2025 2 19 16 0 1 0, doneInWait = True,
          triggerResult = None, nowAfter = instant 2025 2 19 16 0 2 0\<rparr>] =
      ([LogStarted, LogFirst \<lparr>TargetTime = ''09:00'', TriggerTime = instant 2025 2 20 4 1 0 0\<rparr>,
        LogWaiting], Returned_ctxErr)"
proof -
  let ?cfg = "\<lparr>IntervalHours = 5, TargetTimes = [''09:00'', ''14:00'', ''19:00''],
               SafetyBufferSeconds = 60\<rparr>"
  let ?it = "\<lparr>doneAtTop = False, nowAtTop = instant 2025 2 19 16 0 1 0, doneInWait = True,
          triggerResult = None, nowAfter = instant 2025 2 19 16 0 2 0\<rparr>"
  let ?nt = "\<lparr>TargetTime = ''09:00'', TriggerTime = instant 2025 2 20 4 1 0 0\<rparr>"
  have h1: "snd (Start ?cfg (instant 2025 2 19 16 0 0 0) []) = Running ?nt"
    by code_simp
  have f: "fst (Start ?cfg (instant 2025 2 19 16 0 0 0) []) = [LogStarted, LogFirst ?nt]"
    by code_simp
  have h2: "\<not> doneAtTop ?it" by simp
  have a: "After (instant 2025 2 20 4 1 0 0) (instant 2025 2 19 16 0 1 0)"
    by code_simp
  then have h3: "After (TriggerTime ?nt) (nowAtTop ?it)" by simp
  have h4: "doneInWait ?it" by simp
  from cancelled_wait_returns [OF h1 h2 h3 h4, of "[]"] h1 a f
  show ?thesis by simp
qed

end
